theory Spec2Isabelle
  imports Main "HOL-Library.AList" "HOL-Library.Sublist"
begin

section \<open>Strings as the program uses them\<close>

text \<open>
  The program is \<^verbatim>\<open>download.py\<close>. Its strings are modelled as \<^typ>\<open>string\<close>, and
  the library operations it calls are modelled on ASCII text: a character with a code
  of 128 or more is neither white space nor a letter here. On ASCII input the functions
  below compute what Python computes.
\<close>

definition isspace :: "char \<Rightarrow> bool" where
  \<comment> \<open>the white space of \<^verbatim>\<open>str.strip()\<close>, \<^verbatim>\<open>str.rstrip()\<close> and of \<^verbatim>\<open>\s\<close> in a
      \<^verbatim>\<open>str\<close> pattern: codes 9 to 13, 28 to 31 and 32\<close>
  "isspace c = (let n = (of_char c :: nat) in (9 \<le> n \<and> n \<le> 13) \<or> (28 \<le> n \<and> n \<le> 32))"

definition lstrip :: "string \<Rightarrow> string" where
  "lstrip s = dropWhile isspace s"

definition rstrip :: "string \<Rightarrow> string" where
  "rstrip s = rev (dropWhile isspace (rev s))"

definition strip :: "string \<Rightarrow> string" where
  "strip s = rstrip (lstrip s)"

definition lower_char :: "char \<Rightarrow> char" where
  "lower_char c = (let n = (of_char c :: nat) in if 65 \<le> n \<and> n \<le> 90 then char_of (n + 32) else c)"

definition casefold :: "string \<Rightarrow> string" where
  "casefold s = map lower_char s"

function sub_space :: "string \<Rightarrow> string" where
  \<comment> \<open>\<^verbatim>\<open>_NAME_SPACE_RX.sub(" ", s)\<close> with \<^verbatim>\<open>_NAME_SPACE_RX = re.compile(r"\s+")\<close>: every
      maximal run of white space becomes one space\<close>
  "sub_space [] = []"
| "sub_space (c # cs) =
     (if isspace c then CHR '' '' # sub_space (dropWhile isspace cs) else c # sub_space cs)"
  by pat_completeness auto
termination
  by (relation "measure length") (auto simp: length_dropWhile_le less_Suc_eq_le)

definition norm_name :: "string \<Rightarrow> string" where
  \<comment> \<open>\<^verbatim>\<open>return _NAME_SPACE_RX.sub(" ", name.strip()).casefold()\<close>\<close>
  "norm_name name = casefold (sub_space (strip name))"

definition replace_char :: "char \<Rightarrow> char \<Rightarrow> string \<Rightarrow> string" where
  \<comment> \<open>\<^verbatim>\<open>str.replace(old, new)\<close> for patterns of one character\<close>
  "replace_char old new s = map (\<lambda>c. if c = old then new else c) s"

definition safe_file_stem :: "string \<Rightarrow> string" where
  \<comment> \<open>\<^verbatim>\<open>return text.replace("/", "-").replace("\\", "-")\<close>\<close>
  "safe_file_stem text = replace_char (CHR 0x5C) CHR ''-'' (replace_char CHR ''/'' CHR ''-'' text)"

definition digit_char :: "nat \<Rightarrow> char" where
  "digit_char n = char_of (48 + n)"

fun str_nat :: "nat \<Rightarrow> string" where
  "str_nat n = (if n < 10 then [digit_char n] else str_nat (n div 10) @ [digit_char (n mod 10)])"

declare str_nat.simps [simp del]

definition str_int :: "int \<Rightarrow> string" where
  \<comment> \<open>\<^verbatim>\<open>str(i)\<close>, which is what an f-string field \<^verbatim>\<open>{i}\<close> inserts for an int\<close>
  "str_int i = (if i < 0 then CHR ''-'' # str_nat (nat (- i)) else str_nat (nat i))"

section \<open>Tier prefix, identifier, URL and file name\<close>

definition is_tier_digit :: "char \<Rightarrow> bool" where
  \<comment> \<open>the class \<^verbatim>\<open>[1-8]\<close> of \<^verbatim>\<open>_TIER_PREFIX_RX = re.compile(r"^T([1-8])_")\<close>\<close>
  "is_tier_digit c = (let n = (of_char c :: nat) in 49 \<le> n \<and> n \<le> 56)"

fun tier_prefix_match :: "string \<Rightarrow> char option" where
  \<comment> \<open>\<^verbatim>\<open>_TIER_PREFIX_RX.match(ident)\<close>: the character of group 1 when the pattern matches\<close>
  "tier_prefix_match (a # d # b # _) =
     (if a = CHR ''T'' \<and> is_tier_digit d \<and> b = CHR ''_'' then Some d else None)"
| "tier_prefix_match _ = None"

definition has_tier_prefix :: "string \<Rightarrow> bool" where
  "has_tier_prefix ident = (tier_prefix_match ident \<noteq> None)"

definition extract_tier_from_ident :: "string \<Rightarrow> int" where
  \<comment> \<open>\<^verbatim>\<open>return int(m.group(1)) if m else -1\<close>\<close>
  "extract_tier_from_ident ident =
     (case tier_prefix_match ident of Some d \<Rightarrow> int (of_char d) - 48 | None \<Rightarrow> - 1)"

datatype exn =
    ValueError_tier_required   \<comment> \<open>raised by \<^verbatim>\<open>build_identifier\<close>\<close>
  | Fetch_error string         \<comment> \<open>anything \<^verbatim>\<open>download_one\<close> raises, with its message\<close>

definition build_identifier :: "string \<Rightarrow> int \<Rightarrow> int \<Rightarrow> exn + (string \<times> int)" where
  "build_identifier base_ident tier enchant =
     (if has_tier_prefix base_ident then
        (let tier_for_name = extract_tier_from_ident base_ident;
             core = base_ident
         in Inr (if enchant = 0 then core else core @ ''@'' @ str_int enchant, tier_for_name))
      else if tier = - 1 then Inl ValueError_tier_required
      else
        (let tier_for_name = tier;
             core = ''T'' @ str_int tier @ ''_'' @ base_ident
         in Inr (if enchant = 0 then core else core @ ''@'' @ str_int enchant, tier_for_name)))"

definition BASE_URL :: string where
  "BASE_URL = ''https://render.albiononline.com/v1/item/''"

definition build_url :: "string \<Rightarrow> int \<Rightarrow> string" where
  "build_url identifier quality =
     (if quality = 1 then BASE_URL @ identifier @ ''.png''
      else BASE_URL @ identifier @ ''.png?quality='' @ str_int quality)"

definition QUALITY_WORD :: "(int \<times> string) list" where
  "QUALITY_WORD =
     [(1, ''Common''), (2, ''Good''), (3, ''Outstanding''), (4, ''Excellent''), (5, ''Masterpiece'')]"

definition quality_word :: "int \<Rightarrow> string" where
  \<comment> \<open>\<^verbatim>\<open>QUALITY_WORD.get(quality, str(quality))\<close>\<close>
  "quality_word quality =
     (case map_of QUALITY_WORD quality of Some w \<Rightarrow> w | None \<Rightarrow> str_int quality)"

definition build_filename :: "string \<Rightarrow> int \<Rightarrow> int \<Rightarrow> int \<Rightarrow> string" where
  "build_filename name tier enchant quality =
     (let stem = safe_file_stem name @ '' '' @ str_int tier;
          stem = (if enchant > 0 then stem @ ''.'' @ str_int enchant else stem);
          stem = (if quality > 1 then stem @ '' '' @ quality_word quality else stem)
      in stem @ ''.png'')"

section \<open>Reading the request list\<close>

definition is_digit :: "char \<Rightarrow> bool" where
  "is_digit c = (let n = (of_char c :: nat) in 48 \<le> n \<and> n \<le> 57)"

definition digit_val :: "char \<Rightarrow> int" where
  "digit_val c = int (of_char c) - 48"

fun digits_ok :: "string \<Rightarrow> bool" where
  \<comment> \<open>decimal digits, with single underscores allowed between two digits\<close>
  "digits_ok [] = False"
| "digits_ok [c] = is_digit c"
| "digits_ok (c # d # cs) =
     (is_digit c \<and> (if d = CHR ''_'' then digits_ok cs else digits_ok (d # cs)))"

definition int_max_str_digits :: nat where
  \<comment> \<open>CPython's default limit on the digits of a decimal literal given to \<^verbatim>\<open>int\<close>\<close>
  "int_max_str_digits = 4300"

definition py_int :: "string \<Rightarrow> int option" where
  \<comment> \<open>\<^verbatim>\<open>int(s)\<close>; \<open>None\<close> stands for the \<^verbatim>\<open>ValueError\<close>\<close>
  "py_int s =
     (let t = strip s;
          (neg, body) =
            (case t of
               [] \<Rightarrow> (False, [])
             | c # r \<Rightarrow> if c = CHR ''-'' then (True, r) else if c = CHR ''+'' then (False, r)
                        else (False, t));
          ds = filter is_digit body;
          v = foldl (\<lambda>acc c. 10 * acc + digit_val c) 0 ds
      in if digits_ok body \<and> length ds \<le> int_max_str_digits
         then Some (if neg then - v else v) else None)"

fun split_on :: "char \<Rightarrow> string \<Rightarrow> string list" where
  \<comment> \<open>the pieces between the occurrences of one separator character\<close>
  "split_on sep [] = [[]]"
| "split_on sep (c # cs) =
     (if c = sep then [] # split_on sep cs
      else (case split_on sep cs of [] \<Rightarrow> [[c]] | w # ws \<Rightarrow> (c # w) # ws))"

definition newline :: char where
  "newline = CHR 0x0A"

definition text_lines :: "string \<Rightarrow> string list" where
  \<comment> \<open>the lines of a text whose only line break is the newline character; a final
      newline does not start another line\<close>
  "text_lines text =
     (let ls = split_on newline text in if last ls = [] then butlast ls else ls)"

definition csv_row :: "string \<Rightarrow> string list" where
  "csv_row line = (if line = [] then [] else split_on CHR '','' line)"

definition csv_reader :: "string \<Rightarrow> string list list" where
  \<comment> \<open>\<^verbatim>\<open>csv.reader\<close> with its default dialect, on a text that has no double quote and
      no carriage return: one row for each line, an empty line giving the empty row\<close>
  "csv_reader text = map csv_row (text_lines text)"

fun join :: "string \<Rightarrow> string list \<Rightarrow> string" where
  \<comment> \<open>\<^verbatim>\<open>sep.join(xs)\<close>\<close>
  "join sep [] = []"
| "join sep [x] = x"
| "join sep (x # y # ys) = x @ sep @ join sep (y # ys)"

definition startswith_hash :: "string \<Rightarrow> bool" where
  \<comment> \<open>\<^verbatim>\<open>s.startswith("#")\<close>\<close>
  "startswith_hash s = (case s of [] \<Rightarrow> False | c # _ \<Rightarrow> c = CHR ''#'')"

datatype diag =
    Error_input_not_found string          \<comment> \<open>\<^verbatim>\<open>[ERROR] Input file not found: path\<close>\<close>
  | Warn_bad_tier string string           \<comment> \<open>\<^verbatim>\<open>[WARN] Bad tier for name: field; treating as omitted.\<close>\<close>
  | Warn_bad_enchant string string        \<comment> \<open>\<^verbatim>\<open>[WARN] Bad enchantment for name: field; defaulting to 0.\<close>\<close>
  | Warn_bad_quality string string        \<comment> \<open>\<^verbatim>\<open>[WARN] Bad quality for name: field; defaulting to 1.\<close>\<close>
  | Warn_invalid_tier int string          \<comment> \<open>\<^verbatim>\<open>[WARN] Invalid tier t for name (must be 1-8); skipping.\<close>\<close>
  | Warn_invalid_enchant int string       \<comment> \<open>\<^verbatim>\<open>[WARN] Invalid enchantment e for name (must be 0-4); skipping.\<close>\<close>
  | Warn_invalid_quality int string       \<comment> \<open>\<^verbatim>\<open>[WARN] Invalid quality q for name (must be 1-5); skipping.\<close>\<close>
  | Error_mapping_empty                   \<comment> \<open>\<^verbatim>\<open>[ERROR] Embedded item mapping is empty.\<close>\<close>
  | Info_no_entries                       \<comment> \<open>\<^verbatim>\<open>[INFO] No valid download entries found.\<close>\<close>
  | Fail_not_in_data string               \<comment> \<open>\<^verbatim>\<open>[FAIL] Not in data: name - leaving in file.\<close>\<close>
  | Warn_tier_ignored string int int      \<comment> \<open>\<^verbatim>\<open>[WARN] name: supplied tier t ignored; using embedded tier d.\<close>\<close>
  | Fail_tier_required string             \<comment> \<open>\<^verbatim>\<open>[FAIL] name: tier required (identifier has no Tn_ prefix).\<close>\<close>
  | Ok_downloaded string string           \<comment> \<open>\<^verbatim>\<open>[OK] name -> out_file\<close>\<close>
  | Fail_exception string string exn      \<comment> \<open>\<^verbatim>\<open>[FAIL] name (base_ident) : e - leaving in file.\<close>\<close>
  | Info_kept nat string                  \<comment> \<open>\<^verbatim>\<open>[INFO] Kept n failed line(s) in path.\<close>\<close>
  | Info_all_downloaded string            \<comment> \<open>\<^verbatim>\<open>[INFO] All items downloaded. path is now empty.\<close>\<close>
  | Warn_rewrite_failed string            \<comment> \<open>\<^verbatim>\<open>[WARN] Could not rewrite path: e\<close>\<close>

type_synonym request = "string \<times> int \<times> int \<times> int \<times> string"
  \<comment> \<open>\<^verbatim>\<open>(name, tier, enchant, quality, original_line)\<close>\<close>

definition parse_row :: "string list \<Rightarrow> diag list \<times> request option" where
  \<comment> \<open>the body of the loop of \<^verbatim>\<open>parse_requests_file\<close> over the rows of the reader: what
      it prints, and the request it appends, if any\<close>
  "parse_row raw_line =
     (if raw_line = [] then ([], None)
      else if length raw_line = 1 \<and> startswith_hash (lstrip (raw_line ! 0)) then ([], None)
      else
        let cols = map strip raw_line in
        if cols = [] \<or> cols ! 0 = [] then ([], None)
        else
          let name = cols ! 0;
              original_line = join '', '' cols;
              (w1, tier) =
                (if length cols \<ge> 2 \<and> cols ! 1 \<noteq> [] then
                   (case py_int (cols ! 1) of
                      Some t \<Rightarrow> ([], t)
                    | None \<Rightarrow> ([Warn_bad_tier name (cols ! 1)], - 1))
                 else ([], - 1));
              (w2, enchant) =
                (if length cols \<ge> 3 \<and> cols ! 2 \<noteq> [] then
                   (case py_int (cols ! 2) of
                      Some e \<Rightarrow> ([], e)
                    | None \<Rightarrow> ([Warn_bad_enchant name (cols ! 2)], 0))
                 else ([], 0));
              (w3, quality) =
                (if length cols \<ge> 4 \<and> cols ! 3 \<noteq> [] then
                   (case py_int (cols ! 3) of
                      Some q \<Rightarrow> ([], q)
                    | None \<Rightarrow> ([Warn_bad_quality name (cols ! 3)], 1))
                 else ([], 1));
              ws = w1 @ w2 @ w3
          in
            if tier \<noteq> - 1 \<and> \<not> (1 \<le> tier \<and> tier \<le> 8)
              then (ws @ [Warn_invalid_tier tier name], None)
            else if \<not> (0 \<le> enchant \<and> enchant \<le> 4)
              then (ws @ [Warn_invalid_enchant enchant name], None)
            else if \<not> (1 \<le> quality \<and> quality \<le> 5)
              then (ws @ [Warn_invalid_quality quality name], None)
            else (ws, Some (name, tier, enchant, quality, original_line)))"

definition parse_requests_file :: "string \<Rightarrow> string option \<Rightarrow> diag list \<times> request list" where
  \<comment> \<open>the second argument is the text of the file at \<open>path\<close>, \<open>None\<close> when there is no
      such file\<close>
  "parse_requests_file path file =
     (case file of
        None \<Rightarrow> ([Error_input_not_found path], [])
      | Some text \<Rightarrow>
          (let rs = map parse_row (csv_reader text)
           in (concat (map fst rs), List.map_filter snd rs)))"

section \<open>The embedded item data\<close>

definition parse_embedded_rows :: "string list list \<Rightarrow> (string \<times> string) list" where
  \<comment> \<open>the loop of \<^verbatim>\<open>parse_embedded_items\<close> over the rows; the dict is an association
      list, \<^verbatim>\<open>mapping[k] = v\<close> is \<^const>\<open>AList.update\<close>\<close>
  "parse_embedded_rows rows =
     foldl (\<lambda>mapping row.
        if row = [] then mapping
        else if length row < 2 then mapping
        else
          let name = strip (row ! 0); ident = strip (row ! 1)
          in if name \<noteq> [] \<and> ident \<noteq> [] then AList.update (norm_name name) ident mapping
             else mapping) [] rows"

definition parse_embedded_items :: "string \<Rightarrow> (string \<times> string) list" where
  \<comment> \<open>\<^verbatim>\<open>csv_text.splitlines()\<close> is \<^const>\<open>text_lines\<close>: the text has no line break other
      than the newline character\<close>
  "parse_embedded_items csv_text =
     (let cleaned = filter (\<lambda>line. line \<noteq> [] \<and> \<not> startswith_hash line)
                      (map strip (text_lines csv_text))
      in if cleaned = [] then []
         else parse_embedded_rows (csv_reader (join [newline] cleaned)))"

definition ITEMS_CSV_excerpt :: string where
  \<comment> \<open>some lines of \<^verbatim>\<open>ITEMS_CSV\<close>, in their order there\<close>
  "ITEMS_CSV_excerpt = join [newline]
     ['''',
      ''# ARMORS'',
      ''Guardian Helmet, HEAD_PLATE_SET3'',
      ''Cleric Robe, ARMOR_CLOTH_SET2'',
      '''',
      ''# MOUNTS'',
      ''Mule, T2_MOUNT_MULE'',
      ''Transport Mammoth, T8_MOUNT_MAMMOTH_TRANSPORT'',
      '''']"

section \<open>Resolving and fetching one request\<close>

definition os_path_join :: "string \<Rightarrow> string \<Rightarrow> string" where
  \<comment> \<open>\<^verbatim>\<open>os.path.join(a, b)\<close> of \<^verbatim>\<open>posixpath\<close>\<close>
  "os_path_join a b =
     (if b \<noteq> [] \<and> hd b = CHR ''/'' then b
      else if a = [] \<or> last a = CHR ''/'' then a @ b
      else a @ ''/'' @ b)"

record target =
  base_ident :: string
  ident :: string
  tier_for_filename :: int
  url :: string
  out_file :: string

datatype resolution =
    Not_in_data                \<comment> \<open>the name is not a key of the mapping\<close>
  | Tier_required              \<comment> \<open>no tier in the identifier and none in the request\<close>
  | Raised string exn          \<comment> \<open>an exception before the download, with \<^verbatim>\<open>base_ident\<close>\<close>
  | Resolved target

definition build_target :: "string \<Rightarrow> string \<Rightarrow> request \<Rightarrow> resolution" where
  \<comment> \<open>the first three statements of the \<^verbatim>\<open>try\<close> block of \<^verbatim>\<open>main\<close>\<close>
  "build_target base output_dir entry =
     (case entry of (name, tier, enchant, quality, original_line) \<Rightarrow>
        (case build_identifier base tier enchant of
           Inl e \<Rightarrow> Raised base e
         | Inr (idt, tier_for_name) \<Rightarrow>
             Resolved \<lparr> base_ident = base, ident = idt, tier_for_filename = tier_for_name,
                        url = build_url idt quality,
                        out_file = os_path_join output_dir
                                     (build_filename name tier_for_name enchant quality) \<rparr>))"

definition resolve_entry ::
  "(string \<times> string) list \<Rightarrow> string \<Rightarrow> request \<Rightarrow> diag list \<times> resolution" where
  \<comment> \<open>the body of the loop of \<^verbatim>\<open>main\<close> up to the call of \<^verbatim>\<open>download_one\<close>: what it
      prints before that call, and what it has reached\<close>
  "resolve_entry name_to_ident output_dir entry =
     (case entry of (name, tier, enchant, quality, original_line) \<Rightarrow>
        (let key = norm_name name in
         case map_of name_to_ident key of
           None \<Rightarrow> ([Fail_not_in_data name], Not_in_data)
         | Some base \<Rightarrow>
             if has_tier_prefix base then
               (let embedded_tier = extract_tier_from_ident base
                in (if tier \<noteq> - 1 \<and> tier \<noteq> embedded_tier
                    then [Warn_tier_ignored name tier embedded_tier] else [],
                    build_target base output_dir entry))
             else if tier = - 1 then ([Fail_tier_required name], Tier_required)
             else ([], build_target base output_dir entry)))"

record 'w run_state =
  failed_lines :: "string list"
  printed :: "diag list"
  world :: 'w

type_synonym 'w fetcher = "'w \<Rightarrow> string \<Rightarrow> string \<Rightarrow> string option \<times> 'w"
  \<comment> \<open>\<^verbatim>\<open>download_one(url, filepath)\<close> on the state \<open>'w\<close> of the network and the disk:
      the message of the exception it raises, if any, and the new state\<close>

definition process_entry ::
  "(string \<times> string) list \<Rightarrow> string \<Rightarrow> 'w fetcher \<Rightarrow> 'w run_state \<Rightarrow> request \<Rightarrow> 'w run_state" where
  \<comment> \<open>the whole body of the loop of \<^verbatim>\<open>main\<close>\<close>
  "process_entry name_to_ident output_dir download_one st entry =
     (case entry of (name, tier, enchant, quality, original_line) \<Rightarrow>
        (case resolve_entry name_to_ident output_dir entry of
           (ds, Not_in_data) \<Rightarrow>
             st\<lparr> printed := printed st @ ds, failed_lines := failed_lines st @ [original_line] \<rparr>
         | (ds, Tier_required) \<Rightarrow>
             st\<lparr> printed := printed st @ ds, failed_lines := failed_lines st @ [original_line] \<rparr>
         | (ds, Raised base e) \<Rightarrow>
             st\<lparr> printed := printed st @ ds @ [Fail_exception name base e],
                 failed_lines := failed_lines st @ [original_line] \<rparr>
         | (ds, Resolved t) \<Rightarrow>
             (case download_one (world st) (url t) (out_file t) of
                (None, w) \<Rightarrow>
                  st\<lparr> printed := printed st @ ds @ [Ok_downloaded name (out_file t)], world := w \<rparr>
              | (Some msg, w) \<Rightarrow>
                  st\<lparr> printed := printed st @ ds @ [Fail_exception name (base_ident t) (Fetch_error msg)],
                      failed_lines := failed_lines st @ [original_line], world := w \<rparr>)))"

section \<open>The run\<close>

record 'w outcome =
  exit_status :: int
  console :: "diag list"
  file_after :: "string option"
  world_after :: 'w

definition main ::
  "string \<Rightarrow> string \<Rightarrow> string \<Rightarrow> 'w fetcher \<Rightarrow> bool \<Rightarrow> string option \<Rightarrow> 'w \<Rightarrow> 'w outcome" where
  \<comment> \<open>\<open>items_csv\<close> is \<^verbatim>\<open>ITEMS_CSV\<close>, \<open>file\<close> the text of the request list (\<open>None\<close> when
      there is no such file), \<open>can_write\<close> whether opening it for writing succeeds.
      Creating the output directory is taken to succeed. Exit status 0 is the normal
      return of \<^verbatim>\<open>main\<close>, 1 is \<^verbatim>\<open>sys.exit(1)\<close>.\<close>
  "main items_csv input_path output_dir download_one can_write file w0 =
     (let name_to_ident = parse_embedded_items items_csv in
      if name_to_ident = [] then
        \<lparr> exit_status = 1, console = [Error_mapping_empty], file_after = file, world_after = w0 \<rparr>
      else
        let (ds, entries) = parse_requests_file input_path file in
        if entries = [] then
          \<lparr> exit_status = 0, console = ds @ [Info_no_entries], file_after = file, world_after = w0 \<rparr>
        else
          let st = foldl (process_entry name_to_ident output_dir download_one)
                     \<lparr> failed_lines = [], printed = ds, world = w0 \<rparr> entries
          in if can_write then
               \<lparr> exit_status = 0,
                 console = printed st @
                   [if failed_lines st \<noteq> [] then Info_kept (length (failed_lines st)) input_path
                    else Info_all_downloaded input_path],
                 file_after = Some (concat (map (\<lambda>line. rstrip line @ [newline]) (failed_lines st))),
                 world_after = world st \<rparr>
             else
               \<lparr> exit_status = 0, console = printed st @ [Warn_rewrite_failed input_path],
                 file_after = file, world_after = world st \<rparr>)"

section \<open>Notions used to state the properties\<close>

datatype scan_state = At_start | In_word | In_gap

fun squeeze :: "scan_state \<Rightarrow> string \<Rightarrow> string" where
  \<comment> \<open>one pass over a name that drops the white space around it and emits one space
      for each run of white space between two words; used to reason about
      \<^const>\<open>sub_space\<close> after \<^const>\<open>strip\<close>\<close>
  "squeeze q [] = []"
| "squeeze At_start (c # cs) = (if isspace c then squeeze At_start cs else c # squeeze In_word cs)"
| "squeeze In_word (c # cs) = (if isspace c then squeeze In_gap cs else c # squeeze In_word cs)"
| "squeeze In_gap (c # cs) =
     (if isspace c then squeeze In_gap cs else CHR '' '' # c # squeeze In_word cs)"

definition same_letter :: "char \<Rightarrow> char \<Rightarrow> bool" where
  \<comment> \<open>the same character, or a capital letter and its small letter\<close>
  "same_letter a b = (a = b \<or> lower_char a = b \<or> a = lower_char b)"

definition differ_only_in_case :: "string \<Rightarrow> string \<Rightarrow> bool" where
  "differ_only_in_case x y = list_all2 same_letter x y"

inductive ws_step :: "string \<Rightarrow> string \<Rightarrow> bool" where
  \<comment> \<open>one more white space character: in front, at the end, or next to a white space
      character, on either side of it\<close>
  leading: "isspace c \<Longrightarrow> ws_step s (c # s)"
| trailing: "isspace c \<Longrightarrow> ws_step s (s @ [c])"
| internal: "isspace c \<Longrightarrow> isspace d \<Longrightarrow> ws_step (u @ d # v) (u @ c # d # v)"
| internal_after: "isspace c \<Longrightarrow> isspace d \<Longrightarrow> ws_step (u @ d # v) (u @ d # c # v)"

definition differ_only_in_whitespace :: "string \<Rightarrow> string \<Rightarrow> bool" where
  \<comment> \<open>any number of such steps, each in either direction\<close>
  "differ_only_in_whitespace x y = rtranclp (\<lambda>a b. ws_step a b \<or> ws_step b a) x y"

definition fetch_ok :: "(string \<times> string) list fetcher" where
  \<comment> \<open>a network on which every download succeeds; the state lists the calls made\<close>
  "fetch_ok w u f = (None, w @ [(u, f)])"

definition fetch_down :: "(string \<times> string) list fetcher" where
  \<comment> \<open>a network on which every download fails\<close>
  "fetch_down w u f = (Some ''connection refused'', w @ [(u, f)])"

definition start_state :: "(string \<times> string) list run_state" where
  \<comment> \<open>the state in which the loop of \<^verbatim>\<open>main\<close> starts when nothing was printed before\<close>
  "start_state = \<lparr> failed_lines = [], printed = [], world = [] \<rparr>"

fun is_skip_warning :: "diag \<Rightarrow> bool" where
  \<comment> \<open>the three warnings that end with "skipping"\<close>
  "is_skip_warning (Warn_invalid_tier _ _) = True"
| "is_skip_warning (Warn_invalid_enchant _ _) = True"
| "is_skip_warning (Warn_invalid_quality _ _) = True"
| "is_skip_warning _ = False"

definition tier_field :: "string list \<Rightarrow> diag list \<times> int" where
  \<comment> \<open>the tier that \<^const>\<open>parse_row\<close> reads from the stripped columns, with the warning it
      prints; named to reason about \<^const>\<open>parse_row\<close>, as are the next two\<close>
  "tier_field cols =
     (if length cols \<ge> 2 \<and> cols ! 1 \<noteq> [] then
        (case py_int (cols ! 1) of
           Some t \<Rightarrow> ([], t)
         | None \<Rightarrow> ([Warn_bad_tier (cols ! 0) (cols ! 1)], - 1))
      else ([], - 1))"

definition enchant_field :: "string list \<Rightarrow> diag list \<times> int" where
  "enchant_field cols =
     (if length cols \<ge> 3 \<and> cols ! 2 \<noteq> [] then
        (case py_int (cols ! 2) of
           Some e \<Rightarrow> ([], e)
         | None \<Rightarrow> ([Warn_bad_enchant (cols ! 0) (cols ! 2)], 0))
      else ([], 0))"

definition quality_field :: "string list \<Rightarrow> diag list \<times> int" where
  "quality_field cols =
     (if length cols \<ge> 4 \<and> cols ! 3 \<noteq> [] then
        (case py_int (cols ! 3) of
           Some q \<Rightarrow> ([], q)
         | None \<Rightarrow> ([Warn_bad_quality (cols ! 0) (cols ! 3)], 1))
      else ([], 1))"



definition is_request_row :: "string list \<Rightarrow> bool" where
  \<comment> \<open>a row that is not empty, is not a comment and has a name\<close>
  "is_request_row raw =
     (raw \<noteq> [] \<and> \<not> (length raw = 1 \<and> startswith_hash (lstrip (raw ! 0)))
      \<and> strip (raw ! 0) \<noteq> [])"

datatype field = Absent | Malformed string | Number int

definition read_field :: "string list \<Rightarrow> nat \<Rightarrow> field" where
  \<comment> \<open>column \<open>i\<close> of a row: absent or blank, not an integer, or an integer\<close>
  "read_field raw i =
     (if i < length raw \<and> strip (raw ! i) \<noteq> [] then
        (case py_int (strip (raw ! i)) of
           Some v \<Rightarrow> Number v
         | None \<Rightarrow> Malformed (strip (raw ! i)))
      else Absent)"

fun field_value :: "int \<Rightarrow> field \<Rightarrow> int" where
  \<comment> \<open>the integer of a field, and the default for any other field\<close>
  "field_value dflt (Number v) = v"
| "field_value dflt _ = dflt"

fun field_warning :: "(string \<Rightarrow> diag) \<Rightarrow> field \<Rightarrow> diag list" where
  \<comment> \<open>one warning for a field that is not an integer\<close>
  "field_warning warn (Malformed s) = [warn s]"
| "field_warning warn _ = []"

section \<open>Name normalization\<close>

lemma squeeze_start_skip: "squeeze At_start (dropWhile isspace s) = squeeze At_start s"
  by (induction s) auto

lemma squeeze_gap_skip: "squeeze In_gap (dropWhile isspace s) = squeeze In_gap s"
  by (induction s) auto

lemma rstrip_Nil: "rstrip [] = []"
  by (simp add: rstrip_def)

lemma rstrip_Cons:
  "rstrip (c # cs) = (if \<forall>x\<in>set (c # cs). isspace x then [] else c # rstrip cs)"
  unfolding rstrip_def by (auto simp: dropWhile_append)

lemma set_rstrip: "x \<in> set (rstrip s) \<Longrightarrow> x \<in> set s"
  unfolding rstrip_def using set_dropWhileD[of x isspace "rev s"] by simp

lemma rstrip_dropWhile: "rstrip (dropWhile isspace s) = dropWhile isspace (rstrip s)"
  by (induction s) (auto simp: rstrip_Cons rstrip_Nil dest: set_dropWhileD set_rstrip)

lemma sub_space_rstrip: "sub_space (rstrip t) = squeeze In_word t"
proof (induction "length t" arbitrary: t rule: less_induct)
  case less
  show ?case
  proof (cases t)
    case Nil
    then show ?thesis by (simp add: rstrip_Nil)
  next
    case (Cons c cs)
    note t = this
    show ?thesis
    proof (cases "isspace c")
      case False
      with t less show ?thesis by (simp add: rstrip_Cons)
    next
      case True
      show ?thesis
      proof (cases "dropWhile isspace cs")
        case Nil
        then have blank: "\<forall>x\<in>set cs. isspace x" by (simp add: dropWhile_eq_Nil_conv)
        have "squeeze In_gap cs = squeeze In_gap (dropWhile isspace cs)"
          by (simp only: squeeze_gap_skip)
        then have "squeeze In_gap cs = []" by (simp only: Nil squeeze.simps)
        with blank True t show ?thesis by (simp add: rstrip_Cons)
      next
        case (Cons x r)
        then have nx: "\<not> isspace x" using hd_dropWhile[of isspace cs] by auto
        from Cons have xin: "x \<in> set cs" using set_dropWhileD[of x isspace cs] by simp
        have shorter: "length (x # r) < length t"
          using length_dropWhile_le[of isspace cs] Cons t by simp
        have "sub_space (rstrip (c # cs)) = CHR '' '' # sub_space (dropWhile isspace (rstrip cs))"
          using True xin nx by (auto simp: rstrip_Cons)
        also have "dropWhile isspace (rstrip cs) = rstrip (x # r)"
          using Cons by (simp add: rstrip_dropWhile[symmetric])
        also have "sub_space (rstrip (x # r)) = squeeze In_word (x # r)"
          using less[OF shorter] .
        finally have "sub_space (rstrip (c # cs)) = CHR '' '' # x # squeeze In_word r"
          using nx by simp
        moreover have "squeeze In_word (c # cs) = CHR '' '' # x # squeeze In_word r"
          using True squeeze_gap_skip[of cs] Cons nx by simp
        ultimately show ?thesis using t by simp
      qed
    qed
  qed
qed

lemma squeeze_start_word: "s = [] \<or> \<not> isspace (hd s) \<Longrightarrow> squeeze At_start s = squeeze In_word s"
  by (cases s) auto

lemma sub_space_strip: "sub_space (strip s) = squeeze At_start s"
proof -
  have h: "dropWhile isspace s = [] \<or> \<not> isspace (hd (dropWhile isspace s))"
    using hd_dropWhile[of isspace s] by blast
  have "sub_space (strip s) = squeeze In_word (dropWhile isspace s)"
    by (simp add: strip_def lstrip_def sub_space_rstrip)
  also have "\<dots> = squeeze At_start (dropWhile isspace s)"
    using squeeze_start_word[OF h] by simp
  finally show ?thesis by (simp add: squeeze_start_skip)
qed

lemma lower_idem: "lower_char (lower_char c) = lower_char c"
  by (simp add: lower_char_def Let_def)

lemma isspace_lower: "isspace (lower_char c) = isspace c"
  by (simp add: lower_char_def isspace_def Let_def)

lemma lower_space: "lower_char CHR '' '' = CHR '' ''"
  by (simp add: lower_char_def)

lemma squeeze_map_lower: "squeeze q (map lower_char s) = map lower_char (squeeze q s)"
  by (induction s arbitrary: q) (case_tac q; simp add: isspace_lower lower_space)+

lemma norm_name_squeeze: "norm_name s = map lower_char (squeeze At_start s)"
  by (simp add: norm_name_def casefold_def sub_space_strip)

lemma norm_name_squeeze_lower: "norm_name s = squeeze At_start (map lower_char s)"
  by (simp add: norm_name_squeeze squeeze_map_lower)

lemma squeeze_word_idem: "squeeze In_word (squeeze q s) = squeeze q s"
proof (induction s arbitrary: q)
  case Nil
  then show ?case by simp
next
  case (Cons c cs)
  then show ?case by (cases q) (simp_all add: isspace_def[of "CHR '' ''"])
qed

lemma squeeze_start_head: "squeeze At_start s = [] \<or> \<not> isspace (hd (squeeze At_start s))"
  by (induction s) auto

lemma squeeze_start_idem: "squeeze At_start (squeeze At_start s) = squeeze At_start s"
  using squeeze_start_word[OF squeeze_start_head, of s] squeeze_word_idem[of At_start s] by simp

lemma norm_name_idem: "norm_name (norm_name x) = norm_name x"
  by (simp add: norm_name_squeeze squeeze_map_lower squeeze_start_idem lower_idem)

lemma same_letter_lower: "same_letter a b \<Longrightarrow> lower_char a = lower_char b"
  by (auto simp: same_letter_def lower_idem)

lemma case_variant_map: "differ_only_in_case x y \<Longrightarrow> map lower_char x = map lower_char y"
  unfolding differ_only_in_case_def
  by (induction rule: list_all2_induct) (auto dest: same_letter_lower)

lemma squeeze_trailing: "isspace c \<Longrightarrow> squeeze q (s @ [c]) = squeeze q s"
  by (induction s arbitrary: q) (case_tac q; simp)+

lemma squeeze_internal:
  "isspace c \<Longrightarrow> isspace d \<Longrightarrow> squeeze q (u @ c # d # v) = squeeze q (u @ d # v)"
  by (induction u arbitrary: q) (case_tac q; simp)+

lemma squeeze_internal_after:
  "isspace c \<Longrightarrow> isspace d \<Longrightarrow> squeeze q (u @ d # c # v) = squeeze q (u @ d # v)"
  by (induction u arbitrary: q) (case_tac q; simp)+

lemma ws_step_squeeze: "ws_step x y \<Longrightarrow> squeeze At_start x = squeeze At_start y"
proof (induction rule: ws_step.induct)
  case (leading c s)
  then show ?case by simp
next
  case (trailing c s)
  then show ?case by (simp add: squeeze_trailing)
next
  case (internal c d u v)
  then show ?case by (simp only: squeeze_internal)
next
  case (internal_after c d u v)
  then show ?case by (simp only: squeeze_internal_after)
qed

lemma ws_variant_squeeze:
  "differ_only_in_whitespace x y \<Longrightarrow> squeeze At_start x = squeeze At_start y"
  unfolding differ_only_in_whitespace_def
  by (induction rule: rtranclp_induct) (auto dest: ws_step_squeeze)

lemma ws_variant_refl: "differ_only_in_whitespace x x"
  by (simp add: differ_only_in_whitespace_def)

lemma ws_variant_sym: "differ_only_in_whitespace x y \<Longrightarrow> differ_only_in_whitespace y x"
  unfolding differ_only_in_whitespace_def
proof (induction rule: rtranclp_induct)
  case base
  then show ?case by simp
next
  case (step y z)
  then have "(\<lambda>a b. ws_step a b \<or> ws_step b a) z y" by blast
  then show ?case using step.IH by (rule converse_rtranclp_into_rtranclp)
qed

lemma ws_variant_trans:
  "differ_only_in_whitespace x y \<Longrightarrow> differ_only_in_whitespace y z \<Longrightarrow> differ_only_in_whitespace x z"
  unfolding differ_only_in_whitespace_def by (rule rtranclp_trans)

lemma ws_variant_grow: "ws_step x y \<Longrightarrow> differ_only_in_whitespace x y"
  unfolding differ_only_in_whitespace_def by blast

lemma ws_variant_shrink: "ws_step x y \<Longrightarrow> differ_only_in_whitespace y x"
  unfolding differ_only_in_whitespace_def by blast

lemma drop_trailing_run:
  "\<forall>c\<in>set g. isspace c \<Longrightarrow> differ_only_in_whitespace (p @ g) p"
proof (induction g rule: rev_induct)
  case Nil
  then show ?case by (simp add: ws_variant_refl)
next
  case (snoc c g)
  then have "ws_step (p @ g) ((p @ g) @ [c])" by (intro trailing) simp
  then have "differ_only_in_whitespace (p @ g @ [c]) (p @ g)"
    using ws_variant_shrink by fastforce
  moreover have "differ_only_in_whitespace (p @ g) p" using snoc by simp
  ultimately show ?case by (rule ws_variant_trans)
qed

lemma run_to_space:
  "g \<noteq> [] \<Longrightarrow> \<forall>c\<in>set g. isspace c \<Longrightarrow>
     differ_only_in_whitespace (p @ g @ r) (p @ CHR '' '' # r)"
proof (induction g rule: list_nonempty_induct)
  case (single d)
  have sp: "isspace CHR '' ''" by (simp add: isspace_def)
  from single have d: "isspace d" by simp
  have "ws_step (p @ d # r) (p @ d # CHR '' '' # r)" using sp d by (rule internal_after)
  then have a: "differ_only_in_whitespace (p @ [d] @ r) (p @ d # CHR '' '' # r)"
    using ws_variant_grow by fastforce
  have "ws_step (p @ CHR '' '' # r) (p @ d # CHR '' '' # r)" using d sp by (rule internal)
  then have b: "differ_only_in_whitespace (p @ d # CHR '' '' # r) (p @ CHR '' '' # r)"
    by (rule ws_variant_shrink)
  from a b show ?case by (rule ws_variant_trans)
next
  case (cons d g)
  then obtain e g' where g: "g = e # g'" by (cases g) auto
  from cons g have d: "isspace d" and e: "isspace e" by simp_all
  have "ws_step (p @ e # (g' @ r)) (p @ d # e # (g' @ r))" using d e by (rule internal)
  then have "differ_only_in_whitespace (p @ (d # g) @ r) (p @ g @ r)"
    using ws_variant_shrink g by fastforce
  moreover have "differ_only_in_whitespace (p @ g @ r) (p @ CHR '' '' # r)" using cons by simp
  ultimately show ?case by (rule ws_variant_trans)
qed

lemma squeeze_word_gap_variant:
  "differ_only_in_whitespace (p @ x) (p @ squeeze In_word x)
   \<and> (g \<noteq> [] \<and> (\<forall>c\<in>set g. isspace c) \<longrightarrow>
        differ_only_in_whitespace (p @ g @ x) (p @ squeeze In_gap x))"
proof (induction x arbitrary: p g)
  case Nil
  show ?case using drop_trailing_run[of g p] by (simp add: ws_variant_refl)
next
  case (Cons c cs)
  show ?case
  proof (cases "isspace c")
    case True
    have w: "differ_only_in_whitespace (p @ c # cs) (p @ squeeze In_gap cs)"
      using Cons[of p "[c]"] True by simp
    have "g \<noteq> [] \<and> (\<forall>c\<in>set g. isspace c) \<longrightarrow>
        differ_only_in_whitespace (p @ g @ c # cs) (p @ squeeze In_gap cs)"
      using Cons[of p "g @ [c]"] True by simp
    with w True show ?thesis by simp
  next
    case False
    have w: "differ_only_in_whitespace (p @ c # cs) (p @ c # squeeze In_word cs)"
      using Cons[of "p @ [c]" g] by simp
    have "differ_only_in_whitespace (p @ g @ c # cs) (p @ CHR '' '' # c # squeeze In_word cs)"
      if g: "g \<noteq> []" "\<forall>c\<in>set g. isspace c"
    proof -
      have "differ_only_in_whitespace (p @ g @ c # cs) (p @ CHR '' '' # c # cs)"
        using run_to_space[OF g] .
      moreover have "differ_only_in_whitespace (p @ CHR '' '' # c # cs)
                       (p @ CHR '' '' # c # squeeze In_word cs)"
        using Cons[of "p @ [CHR '' '', c]" g] by simp
      ultimately show ?thesis by (rule ws_variant_trans)
    qed
    with w False show ?thesis by simp
  qed
qed

lemma squeeze_start_variant: "differ_only_in_whitespace x (squeeze At_start x)"
proof (induction x)
  case Nil
  then show ?case by (simp add: ws_variant_refl)
next
  case (Cons c cs)
  show ?case
  proof (cases "isspace c")
    case True
    then have "ws_step cs (c # cs)" by (rule leading)
    then have "differ_only_in_whitespace (c # cs) cs" by (rule ws_variant_shrink)
    then show ?thesis using Cons True ws_variant_trans by fastforce
  next
    case False
    then show ?thesis using squeeze_word_gap_variant[of "[c]" cs "[]"] by simp
  qed
qed

lemma ws_variant_complete:
  "sub_space (strip x) = sub_space (strip y) \<Longrightarrow> differ_only_in_whitespace x y"
proof -
  assume "sub_space (strip x) = sub_space (strip y)"
  then have e: "squeeze At_start x = squeeze At_start y" by (simp add: sub_space_strip)
  have "differ_only_in_whitespace x (squeeze At_start x)" by (rule squeeze_start_variant)
  moreover have "differ_only_in_whitespace (squeeze At_start x) y"
    using squeeze_start_variant[of y] e ws_variant_sym by simp
  ultimately show ?thesis by (rule ws_variant_trans)
qed

lemma lower_eq_same_letter: "lower_char a = lower_char b \<Longrightarrow> same_letter a b"
proof -
  assume e: "lower_char a = lower_char b"
  let ?n = "of_char a :: nat" and ?m = "of_char b :: nat"
  have range: "?n < 256" "?m < 256" by simp_all
  show ?thesis
  proof (cases "65 \<le> ?n \<and> ?n \<le> 90")
    case True
    note ua = this
    show ?thesis
    proof (cases "65 \<le> ?m \<and> ?m \<le> 90")
      case True
      from e ua True have "char_of (?n + 32) = (char_of (?m + 32) :: char)"
        by (simp add: lower_char_def)
      then have "of_char (char_of (?n + 32) :: char) = (of_char (char_of (?m + 32) :: char) :: nat)"
        by simp
      with ua True have "?n = ?m" by simp
      then have "a = b" by (rule of_char_eqI)
      then show ?thesis by (simp add: same_letter_def)
    next
      case False
      with e ua have "lower_char a = b" by (simp add: lower_char_def)
      then show ?thesis by (simp add: same_letter_def)
    qed
  next
    case False
    note la = this
    show ?thesis
    proof (cases "65 \<le> ?m \<and> ?m \<le> 90")
      case True
      with e la have "a = lower_char b" by (simp add: lower_char_def)
      then show ?thesis by (simp add: same_letter_def)
    next
      case False
      with e la have "a = b" by (simp add: lower_char_def)
      then show ?thesis by (simp add: same_letter_def)
    qed
  qed
qed

lemma case_variant_complete:
  "casefold x = casefold y \<Longrightarrow> differ_only_in_case x y"
  unfolding casefold_def differ_only_in_case_def
proof (induction x arbitrary: y)
  case Nil
  then show ?case by simp
next
  case (Cons a x)
  then obtain b y' where y: "y = b # y'" by (cases y) auto
  with Cons show ?case by (simp add: lower_eq_same_letter)
qed

text \<open>
  C9. Normalizing a name twice gives what normalizing it once gives; two names that
  differ only in the case of their letters have the same normal form; and so do two
  names that differ only in the white space around them or in the length of the runs
  of white space inside them. The two relations leave no such pair out: names differ
  only in case exactly when case folding makes them equal, and differ only in white
  space exactly when stripping them and collapsing their runs makes them equal.
\<close>

theorem norm_name_idempotent_insensitive:
  "norm_name (norm_name x) = norm_name x
   \<and> (differ_only_in_case x y \<longrightarrow> norm_name x = norm_name y)
   \<and> (differ_only_in_whitespace x z \<longrightarrow> norm_name x = norm_name z)
   \<and> (differ_only_in_case x y \<longleftrightarrow> casefold x = casefold y)
   \<and> (differ_only_in_whitespace x z \<longleftrightarrow> sub_space (strip x) = sub_space (strip z))"
proof (intro conjI impI iffI)
  show "norm_name (norm_name x) = norm_name x" by (rule norm_name_idem)
next
  assume "differ_only_in_case x y"
  then show "norm_name x = norm_name y" by (simp add: norm_name_squeeze_lower case_variant_map)
next
  assume "differ_only_in_whitespace x z"
  then show "norm_name x = norm_name z" by (simp add: norm_name_squeeze ws_variant_squeeze)
next
  assume "differ_only_in_case x y"
  then show "casefold x = casefold y" by (simp add: casefold_def case_variant_map)
next
  assume "casefold x = casefold y"
  then show "differ_only_in_case x y" by (rule case_variant_complete)
next
  assume "differ_only_in_whitespace x z"
  then show "sub_space (strip x) = sub_space (strip z)"
    by (simp add: sub_space_strip ws_variant_squeeze)
next
  assume "sub_space (strip x) = sub_space (strip z)"
  then show "differ_only_in_whitespace x z" by (rule ws_variant_complete)
qed

theorem norm_name_idempotent_insensitive_witness:
  "norm_name (norm_name ''Cleric  Robe'') = norm_name ''Cleric  Robe''
   \<and> differ_only_in_case ''Cleric  Robe'' ''cleric  robe''
   \<and> differ_only_in_whitespace ''Cleric  Robe'' '' Cleric Robe''
   \<and> norm_name ''Cleric  Robe'' = norm_name ''cleric  robe''
   \<and> norm_name ''Cleric  Robe'' = norm_name '' Cleric Robe''
   \<and> norm_name ''Cleric  Robe'' = ''cleric robe''
   \<and> sub_space (strip ''Cleric Robe'') = sub_space (strip (''Cleric '' @ [CHR 0x09] @ ''Robe '' @ [CHR 0x0A]))
   \<and> differ_only_in_whitespace ''Cleric Robe'' (''Cleric '' @ [CHR 0x09] @ ''Robe '' @ [CHR 0x0A])
   \<and> norm_name ''Cleric Robe'' = norm_name (''Cleric '' @ [CHR 0x09] @ ''Robe '' @ [CHR 0x0A])
   \<and> casefold ''CLERIC robe'' = casefold ''cleric ROBE''
   \<and> differ_only_in_case ''CLERIC robe'' ''cleric ROBE''"
proof -
  have c: "differ_only_in_case ''Cleric  Robe'' ''cleric  robe''"
    by code_simp
  have sp: "isspace CHR '' ''" by (simp add: isspace_def)
  have s1: "ws_step ''Cleric Robe'' ''Cleric  Robe''"
    using internal[OF sp sp, of "''Cleric''" "''Robe''"] by simp
  have s2: "ws_step ''Cleric Robe'' '' Cleric Robe''"
    using leading[OF sp, of "''Cleric Robe''"] by simp
  have w: "differ_only_in_whitespace ''Cleric  Robe'' '' Cleric Robe''"
    unfolding differ_only_in_whitespace_def
    by (rule rtranclp.rtrancl_into_rtrancl[where b = "''Cleric Robe''"]) (auto simp: s1 s2)
  have v: "norm_name ''Cleric  Robe'' = ''cleric robe''" by code_simp
  have k: "sub_space (strip ''Cleric Robe'')
             = sub_space (strip (''Cleric '' @ [CHR 0x09] @ ''Robe '' @ [CHR 0x0A]))"
    by code_simp
  have f: "casefold ''CLERIC robe'' = casefold ''cleric ROBE''" by code_simp
  note t = norm_name_idempotent_insensitive
             [of "''Cleric  Robe''" "''cleric  robe''" "'' Cleric Robe''"]
  note t2 = norm_name_idempotent_insensitive
             [of "''Cleric Robe''" "''Cleric Robe''" "''Cleric '' @ [CHR 0x09] @ ''Robe '' @ [CHR 0x0A]"]
  note t3 = norm_name_idempotent_insensitive
             [of "''CLERIC robe''" "''cleric ROBE''" "''CLERIC robe''"]
  from t have e0: "norm_name (norm_name ''Cleric  Robe'') = norm_name ''Cleric  Robe''"
    by blast
  from t c have e1: "norm_name ''Cleric  Robe'' = norm_name ''cleric  robe''" by blast
  from t w have e2: "norm_name ''Cleric  Robe'' = norm_name '' Cleric Robe''" by blast
  from t2 k have w2: "differ_only_in_whitespace ''Cleric Robe''
      (''Cleric '' @ [CHR 0x09] @ ''Robe '' @ [CHR 0x0A])"
    by blast
  from t2 w2 have e3: "norm_name ''Cleric Robe''
      = norm_name (''Cleric '' @ [CHR 0x09] @ ''Robe '' @ [CHR 0x0A])"
    by blast
  from t3 f have c3: "differ_only_in_case ''CLERIC robe'' ''cleric ROBE''" by blast
  show ?thesis by (intro conjI) (rule e0 c w e1 e2 v k w2 e3 f c3)+
qed

section \<open>Identifier, URL and file name\<close>


lemma str_nat_digit: "n < 10 \<Longrightarrow> str_nat n = [digit_char n]"
  by (subst str_nat.simps) simp

lemma str_nat_nonempty: "str_nat n \<noteq> []"
  by (subst str_nat.simps) simp

lemma str_int_nonempty: "str_int i \<noteq> []"
  by (simp add: str_int_def str_nat_nonempty)

lemma str_int_digit: "0 \<le> i \<Longrightarrow> i < 10 \<Longrightarrow> str_int i = [digit_char (nat i)]"
  by (simp add: str_int_def str_nat_digit)

lemma tier_digit_cases:
  "is_tier_digit d \<Longrightarrow> 1 \<le> int (of_char d) - 48 \<and> int (of_char d) - 48 \<le> 8"
  by (auto simp: is_tier_digit_def Let_def)

lemma tier_digit_char: "1 \<le> t \<Longrightarrow> t \<le> 8 \<Longrightarrow> is_tier_digit (digit_char (nat t))"
  by (auto simp: is_tier_digit_def digit_char_def Let_def)

lemma tier_digit_val: "1 \<le> t \<Longrightarrow> t \<le> 8 \<Longrightarrow> int (of_char (digit_char (nat t))) - 48 = t"
  by (auto simp: digit_char_def)

lemma has_tier_prefixE:
  "has_tier_prefix s \<Longrightarrow> \<exists>d rest. s = CHR ''T'' # d # CHR ''_'' # rest \<and> is_tier_digit d"
  unfolding has_tier_prefix_def
  by (cases s rule: tier_prefix_match.cases) (auto split: if_splits)

lemma has_tier_prefixI:
  "is_tier_digit d \<Longrightarrow> has_tier_prefix (CHR ''T'' # d # CHR ''_'' # rest)"
  by (simp add: has_tier_prefix_def)

lemma extract_tier_Cons:
  "is_tier_digit d \<Longrightarrow> extract_tier_from_ident (CHR ''T'' # d # CHR ''_'' # rest) = int (of_char d) - 48"
  by (simp add: extract_tier_from_ident_def)

lemma build_identifier_tier_prefix:
  "has_tier_prefix base \<or> (1 \<le> t \<and> t \<le> 8) \<Longrightarrow>
     \<exists>idt tf d rest.
        build_identifier base t e = Inr (idt, tf)
      \<and> idt = CHR ''T'' # d # CHR ''_'' # rest @ (if e = 0 then [] else CHR ''@'' # str_int e)
      \<and> is_tier_digit d \<and> tf = int (of_char d) - 48 \<and> 1 \<le> tf \<and> tf \<le> 8
      \<and> has_tier_prefix idt \<and> extract_tier_from_ident idt = tf
      \<and> (if has_tier_prefix base then base = CHR ''T'' # d # CHR ''_'' # rest else rest = base)"
proof (cases "has_tier_prefix base")
  case True
  then obtain d rest where b: "base = CHR ''T'' # d # CHR ''_'' # rest" and d: "is_tier_digit d"
    using has_tier_prefixE by blast
  show ?thesis
    using True b d tier_digit_cases[OF d]
    by (auto simp: build_identifier_def has_tier_prefix_def extract_tier_from_ident_def)
next
  case False
  assume "has_tier_prefix base \<or> (1 \<le> t \<and> t \<le> 8)"
  with False have t: "1 \<le> t" "t \<le> 8" by auto
  then have "t \<noteq> - 1" by simp
  show ?thesis
    using False t tier_digit_char[OF t] tier_digit_val[OF t] \<open>t \<noteq> - 1\<close>
    by (auto simp: build_identifier_def str_int_digit has_tier_prefix_def extract_tier_from_ident_def)
qed

lemma build_filename_shape:
  "build_filename name t e q =
     map (\<lambda>c. if c = CHR ''/'' \<or> c = CHR 0x5C then CHR ''-'' else c) name
     @ '' '' @ str_int t
     @ (if e > 0 then ''.'' @ str_int e else [])
     @ (if q > 1 then '' '' @ quality_word q else [])
     @ ''.png''"
  by (auto simp: build_filename_def safe_file_stem_def replace_char_def Let_def)

lemma quality_words:
  "quality_word 2 = ''Good''" "quality_word 3 = ''Outstanding''"
  "quality_word 4 = ''Excellent''" "quality_word 5 = ''Masterpiece''"
  by (simp_all add: quality_word_def QUALITY_WORD_def)

lemma quality_word_nth:
  "2 \<le> q \<Longrightarrow> q \<le> 5 \<Longrightarrow>
     quality_word q = [''Good'', ''Outstanding'', ''Excellent'', ''Masterpiece''] ! nat (q - 2)"
proof -
  assume "2 \<le> q" "q \<le> 5"
  then have "q = 2 \<or> q = 3 \<or> q = 4 \<or> q = 5" by arith
  then show ?thesis by (auto simp: quality_words)
qed

section \<open>The resolver\<close>

lemma build_target_Inr:
  "build_identifier base t e = Inr (idt, tf) \<Longrightarrow>
     build_target base out (name, t, e, q, orig) =
       Resolved \<lparr> base_ident = base, ident = idt, tier_for_filename = tf, url = build_url idt q,
                  out_file = os_path_join out (build_filename name tf e q) \<rparr>"
  by (simp add: build_target_def)

lemma build_identifier_embedded:
  "has_tier_prefix base \<Longrightarrow>
     build_identifier base t e =
       Inr (base @ (if e = 0 then [] else CHR ''@'' # str_int e), extract_tier_from_ident base)"
  by (simp add: build_identifier_def)

lemma build_identifier_explicit:
  "\<not> has_tier_prefix base \<Longrightarrow> t \<noteq> - 1 \<Longrightarrow>
     build_identifier base t e =
       Inr (''T'' @ str_int t @ ''_'' @ base @ (if e = 0 then [] else CHR ''@'' # str_int e), t)"
  by (simp add: build_identifier_def)

lemma resolve_entry_unknown:
  "map_of d (norm_name name) = None \<Longrightarrow>
     resolve_entry d out (name, t, e, q, orig) = ([Fail_not_in_data name], Not_in_data)"
  by (simp add: resolve_entry_def)

lemma resolve_entry_embedded:
  "map_of d (norm_name name) = Some base \<Longrightarrow> has_tier_prefix base \<Longrightarrow>
     resolve_entry d out (name, t, e, q, orig) =
       (if t \<noteq> - 1 \<and> t \<noteq> extract_tier_from_ident base
        then [Warn_tier_ignored name t (extract_tier_from_ident base)] else [],
        Resolved \<lparr> base_ident = base,
                   ident = base @ (if e = 0 then [] else CHR ''@'' # str_int e),
                   tier_for_filename = extract_tier_from_ident base,
                   url = build_url (base @ (if e = 0 then [] else CHR ''@'' # str_int e)) q,
                   out_file = os_path_join out
                                (build_filename name (extract_tier_from_ident base) e q) \<rparr>)"
  by (simp add: resolve_entry_def build_target_Inr[OF build_identifier_embedded] Let_def)

lemma resolve_entry_tier_required:
  "map_of d (norm_name name) = Some base \<Longrightarrow> \<not> has_tier_prefix base \<Longrightarrow>
     resolve_entry d out (name, - 1, e, q, orig) = ([Fail_tier_required name], Tier_required)"
  by (simp add: resolve_entry_def)

lemma resolve_entry_explicit:
  "map_of d (norm_name name) = Some base \<Longrightarrow> \<not> has_tier_prefix base \<Longrightarrow> t \<noteq> - 1 \<Longrightarrow>
     resolve_entry d out (name, t, e, q, orig) =
       ([],
        Resolved \<lparr> base_ident = base,
                   ident = ''T'' @ str_int t @ ''_'' @ base @ (if e = 0 then [] else CHR ''@'' # str_int e),
                   tier_for_filename = t,
                   url = build_url (''T'' @ str_int t @ ''_'' @ base
                                    @ (if e = 0 then [] else CHR ''@'' # str_int e)) q,
                   out_file = os_path_join out (build_filename name t e q) \<rparr>)"
  by (simp add: resolve_entry_def build_target_Inr[OF build_identifier_explicit] Let_def)

lemma resolve_entry_cases:
  obtains (unknown) "map_of d (norm_name name) = None"
        | (embedded) base where "map_of d (norm_name name) = Some base" "has_tier_prefix base"
        | (required) base where "map_of d (norm_name name) = Some base" "\<not> has_tier_prefix base" "t = - 1"
        | (explicit) base where "map_of d (norm_name name) = Some base" "\<not> has_tier_prefix base" "t \<noteq> - 1"
  by (cases "map_of d (norm_name name)") auto

lemma process_entry_failed:
  "snd (resolve_entry d out (name, t, e, q, orig)) = Not_in_data
   \<or> snd (resolve_entry d out (name, t, e, q, orig)) = Tier_required \<Longrightarrow>
   process_entry d out dl st (name, t, e, q, orig) =
     st\<lparr> printed := printed st @ fst (resolve_entry d out (name, t, e, q, orig)),
         failed_lines := failed_lines st @ [orig] \<rparr>"
  by (cases "resolve_entry d out (name, t, e, q, orig)") (auto simp: process_entry_def)

lemma process_entry_resolved:
  "resolve_entry d out (name, t, e, q, orig) = (ds, Resolved tg) \<Longrightarrow>
   failed_lines (process_entry d out dl st (name, t, e, q, orig)) =
     failed_lines st @ (case fst (dl (world st) (url tg) (out_file tg)) of None \<Rightarrow> [] | Some m \<Rightarrow> [orig])"
  by (auto simp: process_entry_def split: prod.splits option.splits)

lemma main_exit_status:
  "parse_embedded_items items \<noteq> [] \<Longrightarrow> exit_status (main items path out dl cw file w) = 0"
  by (simp add: main_def Let_def split: prod.splits)

lemma main_empty_mapping:
  "parse_embedded_items items = [] \<Longrightarrow>
     main items path out dl cw file w =
       \<lparr> exit_status = 1, console = [Error_mapping_empty], file_after = file, world_after = w \<rparr>"
  by (simp add: main_def)

lemma main_missing_file:
  "parse_embedded_items items \<noteq> [] \<Longrightarrow>
     main items path out dl cw None w =
       \<lparr> exit_status = 0, console = [Error_input_not_found path, Info_no_entries],
         file_after = None, world_after = w \<rparr>"
  by (simp add: main_def parse_requests_file_def)


lemma resolve_entry_Resolved:
  "resolve_entry dct out (name, t, e, q, orig) = (ds, Resolved tg) \<Longrightarrow>
     \<exists>base. map_of dct (norm_name name) = Some base \<and> base_ident tg = base
        \<and> (has_tier_prefix base \<or> t \<noteq> - 1)
        \<and> build_identifier base t e = Inr (ident tg, tier_for_filename tg)
        \<and> url tg = build_url (ident tg) q
        \<and> out_file tg = os_path_join out (build_filename name (tier_for_filename tg) e q)"
proof (cases rule: resolve_entry_cases[where d = dct and name = name and t = t])
  case unknown
  assume "resolve_entry dct out (name, t, e, q, orig) = (ds, Resolved tg)"
  then show ?thesis
    using resolve_entry_unknown[OF unknown, where out = out and t = t and e = e and q = q and orig = orig]
    by simp
next
  case (embedded base)
  assume "resolve_entry dct out (name, t, e, q, orig) = (ds, Resolved tg)"
  then show ?thesis
    using resolve_entry_embedded[OF embedded, where out = out and t = t and e = e and q = q and orig = orig]
      embedded build_identifier_embedded[OF embedded(2), where t = t and e = e]
    by auto
next
  case (required base)
  assume "resolve_entry dct out (name, t, e, q, orig) = (ds, Resolved tg)"
  then show ?thesis
    using resolve_entry_tier_required[OF required(1,2), where out = out and e = e and q = q and orig = orig]
      required(3)
    by simp
next
  case (explicit base)
  assume "resolve_entry dct out (name, t, e, q, orig) = (ds, Resolved tg)"
  then show ?thesis
    using resolve_entry_explicit[OF explicit, where out = out and e = e and q = q and orig = orig]
      explicit build_identifier_explicit[OF explicit(2,3), where e = e]
    by auto
qed

lemma parse_row_valid:
  "snd (parse_row raw) = Some (name, t, e, q, orig) \<Longrightarrow>
     name \<noteq> [] \<and> (t = - 1 \<or> (1 \<le> t \<and> t \<le> 8)) \<and> 0 \<le> e \<and> e \<le> 4 \<and> 1 \<le> q \<and> q \<le> 5"
  unfolding parse_row_def Let_def
  by (simp split: if_splits prod.splits option.splits)

section \<open>Claims about the resolver\<close>

text \<open>
  C1. When the identifier found for the name starts with a tier token \<^verbatim>\<open>T<d>_\<close> with
  \<open>d\<close> from 1 to 8, the request is resolved, whatever tier it supplies: the resolved tier
  is the digit \<open>d\<close>, the identifier found is the core token as it is, and a supplied tier
  other than \<open>d\<close> only adds one warning. The line of the request is kept, unchanged, only
  when the download then fails.
\<close>

theorem embedded_tier_wins:
  "map_of name_to_ident (norm_name name) = Some base \<Longrightarrow>
   base = CHR ''T'' # d # CHR ''_'' # rest \<Longrightarrow> is_tier_digit d \<Longrightarrow>
   (\<exists>tg. resolve_entry name_to_ident out (name, tier, e, q, orig) =
            (if tier \<noteq> - 1 \<and> tier \<noteq> int (of_char d) - 48
             then [Warn_tier_ignored name tier (int (of_char d) - 48)] else [], Resolved tg)
        \<and> tier_for_filename tg = int (of_char d) - 48
        \<and> ident tg = base @ (if e = 0 then [] else CHR ''@'' # str_int e)
        \<and> url tg = build_url (ident tg) q
        \<and> out_file tg = os_path_join out (build_filename name (int (of_char d) - 48) e q)
        \<and> failed_lines (process_entry name_to_ident out dl st (name, tier, e, q, orig)) =
            failed_lines st @
              (case fst (dl (world st) (url tg) (out_file tg)) of None \<Rightarrow> [] | Some m \<Rightarrow> [orig]))
   \<and> 1 \<le> int (of_char d) - 48 \<and> int (of_char d) - 48 \<le> 8"
proof -
  assume m: "map_of name_to_ident (norm_name name) = Some base"
    and b: "base = CHR ''T'' # d # CHR ''_'' # rest" and d: "is_tier_digit d"
  have p: "has_tier_prefix base" using b d by (simp add: has_tier_prefixI)
  have x: "extract_tier_from_ident base = int (of_char d) - 48"
    using b d by (simp add: extract_tier_Cons)
  note r = resolve_entry_embedded[OF m p, where out = out and t = tier and e = e and q = q
             and orig = orig, unfolded x]
  show ?thesis
    using r process_entry_resolved[OF r, where dl = dl and st = st] tier_digit_cases[OF d]
    by simp
qed

theorem embedded_tier_wins_witness:
  "map_of (parse_embedded_items ITEMS_CSV_excerpt) (norm_name ''Mule'') = Some ''T2_MOUNT_MULE''
   \<and> is_tier_digit CHR ''2''
   \<and> (\<exists>tg. resolve_entry (parse_embedded_items ITEMS_CSV_excerpt) ''downloads''
              (''Mule'', 5, 0, 1, ''Mule, 5'') = ([Warn_tier_ignored ''Mule'' 5 2], Resolved tg)
         \<and> tier_for_filename tg = 2
         \<and> ident tg = ''T2_MOUNT_MULE''
         \<and> url tg = ''https://render.albiononline.com/v1/item/T2_MOUNT_MULE.png''
         \<and> out_file tg = ''downloads/Mule 2.png''
         \<and> failed_lines (process_entry (parse_embedded_items ITEMS_CSV_excerpt) ''downloads''
              fetch_down start_state (''Mule'', 5, 0, 1, ''Mule, 5'')) = [''Mule, 5''])"
proof -
  have h1: "map_of (parse_embedded_items ITEMS_CSV_excerpt) (norm_name ''Mule'')
              = Some ''T2_MOUNT_MULE''"
    by code_simp
  have h2: "is_tier_digit CHR ''2''" by code_simp
  have u: "build_url ''T2_MOUNT_MULE'' 1
             = ''https://render.albiononline.com/v1/item/T2_MOUNT_MULE.png''"
    by code_simp
  have f: "os_path_join ''downloads'' (build_filename ''Mule'' 2 0 1) = ''downloads/Mule 2.png''"
    by code_simp
  note t = embedded_tier_wins[OF h1 refl h2, where out = "''downloads''" and tier = 5 and e = 0
             and q = 1 and orig = "''Mule, 5''" and dl = fetch_down and st = start_state]
  show ?thesis
    using t h1 h2 by (auto simp add: u f fetch_down_def start_state_def)
qed

text \<open>
  C2. Resolving a request fails in two cases and in no other: the normalized name is not
  a key of the mapping (the failure printed is "not in data"), or the identifier found has
  no tier token and the request carries the sentinel \<open>-1\<close> for its tier ("tier required").
  In both cases nothing is downloaded, the line of the request is appended unchanged to
  the lines to keep, the loop goes on, and the run ends with exit status 0.
\<close>

theorem resolution_fails_in_two_cases:
  "(snd (resolve_entry d out (name, t, e, q, orig)) = Not_in_data
      \<longleftrightarrow> map_of d (norm_name name) = None)
   \<and> (snd (resolve_entry d out (name, t, e, q, orig)) = Tier_required
      \<longleftrightarrow> (\<exists>base. map_of d (norm_name name) = Some base \<and> \<not> has_tier_prefix base \<and> t = - 1))
   \<and> (snd (resolve_entry d out (name, t, e, q, orig)) \<noteq> Not_in_data
      \<and> snd (resolve_entry d out (name, t, e, q, orig)) \<noteq> Tier_required
      \<longrightarrow> (\<exists>tg. snd (resolve_entry d out (name, t, e, q, orig)) = Resolved tg))
   \<and> (snd (resolve_entry d out (name, t, e, q, orig)) = Not_in_data \<longrightarrow>
        process_entry d out dl st (name, t, e, q, orig) =
          st\<lparr> printed := printed st @ [Fail_not_in_data name],
              failed_lines := failed_lines st @ [orig] \<rparr>)
   \<and> (snd (resolve_entry d out (name, t, e, q, orig)) = Tier_required \<longrightarrow>
        process_entry d out dl st (name, t, e, q, orig) =
          st\<lparr> printed := printed st @ [Fail_tier_required name],
              failed_lines := failed_lines st @ [orig] \<rparr>)
   \<and> (parse_embedded_items items \<noteq> [] \<longrightarrow>
        exit_status (main items path out dl cw content w) = 0)"
proof (cases rule: resolve_entry_cases[where d = d and name = name and t = t])
  case unknown
  then show ?thesis
    using resolve_entry_unknown[OF unknown, where out = out and t = t and e = e and q = q
            and orig = orig]
      process_entry_failed[where d = d and out = out and name = name and t = t and e = e
            and q = q and orig = orig and dl = dl and st = st]
    by (simp add: main_exit_status)
next
  case (embedded base)
  then show ?thesis
    using resolve_entry_embedded[OF embedded, where out = out and t = t and e = e and q = q
            and orig = orig]
    by (simp add: main_exit_status)
next
  case (required base)
  then show ?thesis
    using resolve_entry_tier_required[OF required(1,2), where out = out and e = e and q = q
            and orig = orig]
      process_entry_failed[where d = d and out = out and name = name and t = t and e = e
            and q = q and orig = orig and dl = dl and st = st]
    by (simp add: main_exit_status)
next
  case (explicit base)
  then show ?thesis
    using resolve_entry_explicit[OF explicit, where out = out and e = e and q = q
            and orig = orig]
    by (simp add: main_exit_status)
qed

theorem resolution_fails_in_two_cases_witness:
  "map_of (parse_embedded_items ITEMS_CSV_excerpt) (norm_name ''Not A Real Item'') = None
   \<and> process_entry (parse_embedded_items ITEMS_CSV_excerpt) ''downloads'' fetch_ok start_state
        (''Not A Real Item'', 3, 0, 1, ''Not A Real Item, 3'') =
      start_state\<lparr> printed := [Fail_not_in_data ''Not A Real Item''],
                   failed_lines := [''Not A Real Item, 3''] \<rparr>
   \<and> map_of (parse_embedded_items ITEMS_CSV_excerpt) (norm_name ''Guardian Helmet'')
        = Some ''HEAD_PLATE_SET3''
   \<and> \<not> has_tier_prefix ''HEAD_PLATE_SET3''
   \<and> process_entry (parse_embedded_items ITEMS_CSV_excerpt) ''downloads'' fetch_ok start_state
        (''Guardian Helmet'', - 1, 0, 1, ''Guardian Helmet'') =
      start_state\<lparr> printed := [Fail_tier_required ''Guardian Helmet''],
                   failed_lines := [''Guardian Helmet''] \<rparr>
   \<and> parse_embedded_items ITEMS_CSV_excerpt \<noteq> []
   \<and> exit_status (main ITEMS_CSV_excerpt ''downloads.txt'' ''downloads'' fetch_ok True
        (Some ''Guardian Helmet'') []) = 0"
proof -
  have a: "map_of (parse_embedded_items ITEMS_CSV_excerpt) (norm_name ''Not A Real Item'') = None"
    by code_simp
  have b: "map_of (parse_embedded_items ITEMS_CSV_excerpt) (norm_name ''Guardian Helmet'')
             = Some ''HEAD_PLATE_SET3''"
    by code_simp
  have c: "\<not> has_tier_prefix ''HEAD_PLATE_SET3''" by code_simp
  have n: "parse_embedded_items ITEMS_CSV_excerpt \<noteq> []" by code_simp
  note t1 = resolution_fails_in_two_cases[where d = "parse_embedded_items ITEMS_CSV_excerpt"
      and out = "''downloads''" and name = "''Not A Real Item''" and t = 3 and e = 0 and q = 1
      and orig = "''Not A Real Item, 3''" and dl = fetch_ok and st = start_state
      and items = ITEMS_CSV_excerpt and path = "''downloads.txt''" and cw = True
      and content = "Some ''Guardian Helmet''" and w = "[]"]
  note t2 = resolution_fails_in_two_cases[where d = "parse_embedded_items ITEMS_CSV_excerpt"
      and out = "''downloads''" and name = "''Guardian Helmet''" and t = "- 1" and e = 0 and q = 1
      and orig = "''Guardian Helmet''" and dl = fetch_ok and st = start_state
      and items = ITEMS_CSV_excerpt and path = "''downloads.txt''" and cw = True
      and content = "Some ''Guardian Helmet''" and w = "[]"]
  from t1 a have p1: "process_entry (parse_embedded_items ITEMS_CSV_excerpt) ''downloads'' fetch_ok
        start_state (''Not A Real Item'', 3, 0, 1, ''Not A Real Item, 3'') =
      start_state\<lparr> printed := [Fail_not_in_data ''Not A Real Item''],
                   failed_lines := [''Not A Real Item, 3''] \<rparr>"
    by (simp add: start_state_def)
  from t2 b c have p2: "process_entry (parse_embedded_items ITEMS_CSV_excerpt) ''downloads'' fetch_ok
        start_state (''Guardian Helmet'', - 1, 0, 1, ''Guardian Helmet'') =
      start_state\<lparr> printed := [Fail_tier_required ''Guardian Helmet''],
                   failed_lines := [''Guardian Helmet''] \<rparr>"
    by (simp add: start_state_def)
  from t1 n have x: "exit_status (main ITEMS_CSV_excerpt ''downloads.txt'' ''downloads'' fetch_ok
        True (Some ''Guardian Helmet'') []) = 0"
    by blast
  show ?thesis by (intro conjI) (rule a p1 b c p2 n x)+
qed

section \<open>Claims about the identifier, the URL and the file name\<close>

text \<open>
  C3. For an identifier without a tier token and an explicit tier \<open>t\<close> from 1 to 8, the
  resource identifier is \<^verbatim>\<open>T<t>_\<close> followed by the identifier found. For every request
  whose identifier is built, the suffix \<^verbatim>\<open>@<enchantment>\<close> follows the core token exactly
  when the enchantment is not 0, and that suffix is never empty.
\<close>

theorem build_identifier_prepends_tier_appends_enchant:
  "(\<not> has_tier_prefix base \<and> 1 \<le> t \<and> t \<le> 8 \<longrightarrow>
      build_identifier base t e =
        Inr (CHR ''T'' # digit_char (nat t) # CHR ''_'' # base
               @ (if e = 0 then [] else CHR ''@'' # str_int e), t))
   \<and> (build_identifier base t e = Inr (idt, tf) \<longrightarrow>
        (\<exists>core. idt = core @ (if e = 0 then [] else CHR ''@'' # str_int e)
           \<and> core = (if has_tier_prefix base then base else ''T'' @ str_int t @ ''_'' @ base)))
   \<and> str_int e \<noteq> []"
  by (auto simp: build_identifier_def str_int_digit Let_def str_int_nonempty split: if_splits)

theorem build_identifier_prepends_tier_appends_enchant_witness:
  "\<not> has_tier_prefix ''HEAD_PLATE_SET3'' \<and> (1::int) \<le> 6 \<and> (6::int) \<le> 8
   \<and> build_identifier ''HEAD_PLATE_SET3'' 6 0 = Inr (''T6_HEAD_PLATE_SET3'', 6)
   \<and> \<not> has_tier_prefix ''ARMOR_CLOTH_SET2''
   \<and> build_identifier ''ARMOR_CLOTH_SET2'' 6 1 = Inr (''T6_ARMOR_CLOTH_SET2@1'', 6)
   \<and> map_of (parse_embedded_items ITEMS_CSV_excerpt) (norm_name ''Guardian Helmet'')
        = Some ''HEAD_PLATE_SET3''
   \<and> map_of (parse_embedded_items ITEMS_CSV_excerpt) (norm_name ''Cleric Robe'')
        = Some ''ARMOR_CLOTH_SET2''"
proof -
  have a: "\<not> has_tier_prefix ''HEAD_PLATE_SET3''" by code_simp
  have b: "\<not> has_tier_prefix ''ARMOR_CLOTH_SET2''" by code_simp
  have d6: "digit_char 6 = CHR ''6''" by code_simp
  have s1: "str_int 1 = ''1''" by code_simp
  have m1: "map_of (parse_embedded_items ITEMS_CSV_excerpt) (norm_name ''Guardian Helmet'')
              = Some ''HEAD_PLATE_SET3''" by code_simp
  have m2: "map_of (parse_embedded_items ITEMS_CSV_excerpt) (norm_name ''Cleric Robe'')
              = Some ''ARMOR_CLOTH_SET2''" by code_simp
  note t1 = build_identifier_prepends_tier_appends_enchant
              [where base = "''HEAD_PLATE_SET3''" and t = 6 and e = 0]
  note t2 = build_identifier_prepends_tier_appends_enchant
              [where base = "''ARMOR_CLOTH_SET2''" and t = 6 and e = 1]
  from t1 a have i1: "build_identifier ''HEAD_PLATE_SET3'' 6 0 = Inr (''T6_HEAD_PLATE_SET3'', 6)"
    by (simp add: d6)
  from t2 b have i2: "build_identifier ''ARMOR_CLOTH_SET2'' 6 1 = Inr (''T6_ARMOR_CLOTH_SET2@1'', 6)"
    by (simp add: d6 s1)
  show ?thesis using a b i1 i2 m1 m2 by simp
qed

text \<open>
  C10. Whenever the identifier found has a tier token, or the supplied tier is from 1 to
  8, \<^verbatim>\<open>build_identifier\<close> returns, and its identifier starts with a tier token
  \<^verbatim>\<open>T<d>_\<close>, \<open>d\<close> from 1 to 8 and equal to the tier returned, followed by the rest of the
  identifier and the enchantment suffix, if any. Every request that the reader of the
  request list lets through and that the resolver resolves has such an identifier.
\<close>

theorem resolved_identifier_has_tier_prefix:
  "(has_tier_prefix base \<or> (1 \<le> t \<and> t \<le> 8) \<longrightarrow>
      (\<exists>idt tf d rest.
          build_identifier base t e = Inr (idt, tf)
        \<and> idt = CHR ''T'' # d # CHR ''_'' # rest @ (if e = 0 then [] else CHR ''@'' # str_int e)
        \<and> is_tier_digit d \<and> tf = int (of_char d) - 48 \<and> 1 \<le> tf \<and> tf \<le> 8
        \<and> has_tier_prefix idt \<and> extract_tier_from_ident idt = tf
        \<and> (if has_tier_prefix base then base = CHR ''T'' # d # CHR ''_'' # rest else rest = base)))
   \<and> (snd (parse_row raw) = Some entry \<and> resolve_entry dct out entry = (ds, Resolved tg) \<longrightarrow>
        has_tier_prefix (ident tg) \<and> extract_tier_from_ident (ident tg) = tier_for_filename tg
        \<and> 1 \<le> tier_for_filename tg \<and> tier_for_filename tg \<le> 8)"
proof (intro conjI impI)
  assume "has_tier_prefix base \<or> (1 \<le> t \<and> t \<le> 8)"
  then show "\<exists>idt tf d rest.
          build_identifier base t e = Inr (idt, tf)
        \<and> idt = CHR ''T'' # d # CHR ''_'' # rest @ (if e = 0 then [] else CHR ''@'' # str_int e)
        \<and> is_tier_digit d \<and> tf = int (of_char d) - 48 \<and> 1 \<le> tf \<and> tf \<le> 8
        \<and> has_tier_prefix idt \<and> extract_tier_from_ident idt = tf
        \<and> (if has_tier_prefix base then base = CHR ''T'' # d # CHR ''_'' # rest else rest = base)"
    by (rule build_identifier_tier_prefix)
next
  assume h: "snd (parse_row raw) = Some entry \<and> resolve_entry dct out entry = (ds, Resolved tg)"
  obtain name t' e' q orig where en: "entry = (name, t', e', q, orig)" by (cases entry)
  from h en have v: "t' = - 1 \<or> (1 \<le> t' \<and> t' \<le> 8)"
    using parse_row_valid[of raw name t' e' q orig] by simp
  from h en obtain b where b: "has_tier_prefix b \<or> t' \<noteq> - 1"
      and bi: "build_identifier b t' e' = Inr (ident tg, tier_for_filename tg)"
    using resolve_entry_Resolved[of dct out name t' e' q orig ds tg] by blast
  from v b have "has_tier_prefix b \<or> (1 \<le> t' \<and> t' \<le> 8)" by blast
  from build_identifier_tier_prefix[OF this, of e'] bi
  have r: "has_tier_prefix (ident tg) \<and> extract_tier_from_ident (ident tg) = tier_for_filename tg
        \<and> 1 \<le> tier_for_filename tg \<and> tier_for_filename tg \<le> 8"
    by auto
  from r show "has_tier_prefix (ident tg)" by simp
  from r show "extract_tier_from_ident (ident tg) = tier_for_filename tg" by simp
  from r show "1 \<le> tier_for_filename tg" by simp
  from r show "tier_for_filename tg \<le> 8" by simp
qed

theorem resolved_identifier_has_tier_prefix_witness:
  "(1::int) \<le> 6 \<and> (6::int) \<le> 8
   \<and> (\<exists>tf. build_identifier ''HEAD_PLATE_SET3'' 6 1 = Inr (''T6_HEAD_PLATE_SET3@1'', tf))
   \<and> snd (parse_row [''Guardian Helmet'', '' 6'', '' 1'']) =
        Some (''Guardian Helmet'', 6, 1, 1, ''Guardian Helmet, 6, 1'')
   \<and> resolve_entry (parse_embedded_items ITEMS_CSV_excerpt) ''downloads''
        (''Guardian Helmet'', 6, 1, 1, ''Guardian Helmet, 6, 1'') =
      ([], Resolved \<lparr> base_ident = ''HEAD_PLATE_SET3'', ident = ''T6_HEAD_PLATE_SET3@1'',
                      tier_for_filename = 6,
                      url = ''https://render.albiononline.com/v1/item/T6_HEAD_PLATE_SET3@1.png'',
                      out_file = ''downloads/Guardian Helmet 6.1.png'' \<rparr>)
   \<and> has_tier_prefix ''T6_HEAD_PLATE_SET3@1''
   \<and> extract_tier_from_ident ''T6_HEAD_PLATE_SET3@1'' = 6"
proof -
  have p: "snd (parse_row [''Guardian Helmet'', '' 6'', '' 1'']) =
        Some (''Guardian Helmet'', 6, 1, 1, ''Guardian Helmet, 6, 1'')"
    by code_simp
  have r: "resolve_entry (parse_embedded_items ITEMS_CSV_excerpt) ''downloads''
        (''Guardian Helmet'', 6, 1, 1, ''Guardian Helmet, 6, 1'') =
      ([], Resolved \<lparr> base_ident = ''HEAD_PLATE_SET3'', ident = ''T6_HEAD_PLATE_SET3@1'',
                      tier_for_filename = 6,
                      url = ''https://render.albiononline.com/v1/item/T6_HEAD_PLATE_SET3@1.png'',
                      out_file = ''downloads/Guardian Helmet 6.1.png'' \<rparr>)"
    by code_simp
  have b: "build_identifier ''HEAD_PLATE_SET3'' 6 1 = Inr (''T6_HEAD_PLATE_SET3@1'', 6)"
    by code_simp
  note t = resolved_identifier_has_tier_prefix[where base = "''HEAD_PLATE_SET3''" and t = 6
      and e = 1 and raw = "[''Guardian Helmet'', '' 6'', '' 1'']"
      and entry = "(''Guardian Helmet'', 6, 1, 1, ''Guardian Helmet, 6, 1'')"
      and dct = "parse_embedded_items ITEMS_CSV_excerpt" and out = "''downloads''" and ds = "[]"
      and tg = "\<lparr> base_ident = ''HEAD_PLATE_SET3'', ident = ''T6_HEAD_PLATE_SET3@1'',
                      tier_for_filename = 6,
                      url = ''https://render.albiononline.com/v1/item/T6_HEAD_PLATE_SET3@1.png'',
                      out_file = ''downloads/Guardian Helmet 6.1.png'' \<rparr>"]
  from t p r have x: "has_tier_prefix ''T6_HEAD_PLATE_SET3@1''
      \<and> extract_tier_from_ident ''T6_HEAD_PLATE_SET3@1'' = 6"
    by simp
  show ?thesis using p r b x by simp
qed

text \<open>
  C7. The file name of a resolved request is the display name with every slash and backslash
  replaced by \<^verbatim>\<open>-\<close>, a space, the resolved tier, then a dot and the enchantment exactly when
  the enchantment is above 0, then a space and the quality word exactly when the quality
  is above 1, then \<^verbatim>\<open>.png\<close>. The resolved tier is the tier of the identifier found when it
  has one, and the tier of the request otherwise.
\<close>

theorem filename_of_resolved_request:
  "build_filename name t e q =
     map (\<lambda>c. if c = CHR ''/'' \<or> c = CHR 0x5C then CHR ''-'' else c) name
     @ '' '' @ str_int t
     @ (if e > 0 then ''.'' @ str_int e else [])
     @ (if q > 1 then '' '' @ quality_word q else [])
     @ ''.png''
   \<and> (2 \<le> q \<and> q \<le> 5 \<longrightarrow>
        quality_word q = [''Good'', ''Outstanding'', ''Excellent'', ''Masterpiece''] ! nat (q - 2))
   \<and> (resolve_entry dct out (name, t, e, q, orig) = (ds, Resolved tg) \<longrightarrow>
        out_file tg = os_path_join out (build_filename name (tier_for_filename tg) e q)
        \<and> tier_for_filename tg =
            (if has_tier_prefix (base_ident tg) then extract_tier_from_ident (base_ident tg) else t)
        \<and> map_of dct (norm_name name) = Some (base_ident tg))"
proof (intro conjI impI)
  show "build_filename name t e q =
     map (\<lambda>c. if c = CHR ''/'' \<or> c = CHR 0x5C then CHR ''-'' else c) name
     @ '' '' @ str_int t
     @ (if e > 0 then ''.'' @ str_int e else [])
     @ (if q > 1 then '' '' @ quality_word q else [])
     @ ''.png''"
    by (rule build_filename_shape)
next
  assume "2 \<le> q \<and> q \<le> 5"
  then show "quality_word q = [''Good'', ''Outstanding'', ''Excellent'', ''Masterpiece''] ! nat (q - 2)"
    by (simp add: quality_word_nth)
next
  assume r: "resolve_entry dct out (name, t, e, q, orig) = (ds, Resolved tg)"
  from resolve_entry_Resolved[OF r] obtain b where
      m: "map_of dct (norm_name name) = Some b" and bb: "base_ident tg = b"
      and c: "has_tier_prefix b \<or> t \<noteq> - 1"
      and bi: "build_identifier b t e = Inr (ident tg, tier_for_filename tg)"
      and o: "out_file tg = os_path_join out (build_filename name (tier_for_filename tg) e q)"
    by blast
  from o show "out_file tg = os_path_join out (build_filename name (tier_for_filename tg) e q)" .
  from bi c bb show "tier_for_filename tg =
      (if has_tier_prefix (base_ident tg) then extract_tier_from_ident (base_ident tg) else t)"
    by (auto simp: build_identifier_def Let_def split: if_splits)
  from m bb show "map_of dct (norm_name name) = Some (base_ident tg)" by simp
qed

theorem filename_of_resolved_request_witness:
  "(2::int) \<le> 4 \<and> (4::int) \<le> 5
   \<and> build_filename ''Cleric Robe'' 6 1 4 = ''Cleric Robe 6.1 Excellent.png''
   \<and> quality_word 4 = ''Excellent''
   \<and> resolve_entry (parse_embedded_items ITEMS_CSV_excerpt) ''downloads''
        (''Cleric Robe'', 6, 1, 4, ''Cleric Robe, 6, 1, 4'') =
      ([], Resolved \<lparr> base_ident = ''ARMOR_CLOTH_SET2'', ident = ''T6_ARMOR_CLOTH_SET2@1'',
                      tier_for_filename = 6,
                      url = ''https://render.albiononline.com/v1/item/T6_ARMOR_CLOTH_SET2@1.png?quality=4'',
                      out_file = ''downloads/Cleric Robe 6.1 Excellent.png'' \<rparr>)
   \<and> os_path_join ''downloads'' (build_filename ''Cleric Robe'' 6 1 4)
        = ''downloads/Cleric Robe 6.1 Excellent.png''
   \<and> build_filename (''a/b'' @ [CHR 0x5C] @ ''c'') 6 0 1 = ''a-b-c 6.png''"
proof -
  have r: "resolve_entry (parse_embedded_items ITEMS_CSV_excerpt) ''downloads''
        (''Cleric Robe'', 6, 1, 4, ''Cleric Robe, 6, 1, 4'') =
      ([], Resolved \<lparr> base_ident = ''ARMOR_CLOTH_SET2'', ident = ''T6_ARMOR_CLOTH_SET2@1'',
                      tier_for_filename = 6,
                      url = ''https://render.albiononline.com/v1/item/T6_ARMOR_CLOTH_SET2@1.png?quality=4'',
                      out_file = ''downloads/Cleric Robe 6.1 Excellent.png'' \<rparr>)"
    by code_simp
  have s6: "str_int 6 = ''6''" by code_simp
  have s1: "str_int 1 = ''1''" by code_simp
  have sl: "build_filename (''a/b'' @ [CHR 0x5C] @ ''c'') 6 0 1 = ''a-b-c 6.png''" by code_simp
  note t = filename_of_resolved_request[where name = "''Cleric Robe''" and t = 6 and e = 1
      and q = 4 and dct = "parse_embedded_items ITEMS_CSV_excerpt" and out = "''downloads''"
      and orig = "''Cleric Robe, 6, 1, 4''" and ds = "[]"
      and tg = "\<lparr> base_ident = ''ARMOR_CLOTH_SET2'', ident = ''T6_ARMOR_CLOTH_SET2@1'',
                      tier_for_filename = 6,
                      url = ''https://render.albiononline.com/v1/item/T6_ARMOR_CLOTH_SET2@1.png?quality=4'',
                      out_file = ''downloads/Cleric Robe 6.1 Excellent.png'' \<rparr>"]
  from t have w: "quality_word 4 = ''Excellent''" by simp
  from t w have f: "build_filename ''Cleric Robe'' 6 1 4 = ''Cleric Robe 6.1 Excellent.png''"
    by (simp add: s6 s1)
  from t r have o: "os_path_join ''downloads'' (build_filename ''Cleric Robe'' 6 1 4)
        = ''downloads/Cleric Robe 6.1 Excellent.png''"
    by simp
  show ?thesis using w f r o sl by simp
qed

text \<open>
  C8. With quality 1 the file name has no quality word and the URL has no query; with a
  quality \<open>q\<close> from 2 to 5 the file name carries the word of \<open>q\<close> and the URL ends with
  \<^verbatim>\<open>?quality=q\<close>. The URL always starts with the base URL, the identifier and \<^verbatim>\<open>.png\<close>.
\<close>

theorem quality_in_filename_and_url:
  "build_url idt q = BASE_URL @ idt @ ''.png'' @ (if q = 1 then [] else ''?quality='' @ str_int q)
   \<and> build_url idt 1 = BASE_URL @ idt @ ''.png''
   \<and> build_filename name t e 1 =
       safe_file_stem name @ '' '' @ str_int t @ (if e > 0 then ''.'' @ str_int e else []) @ ''.png''
   \<and> (2 \<le> q \<and> q \<le> 5 \<longrightarrow>
        build_url idt q = BASE_URL @ idt @ ''.png?quality='' @ [digit_char (nat q)]
      \<and> build_filename name t e q =
          safe_file_stem name @ '' '' @ str_int t @ (if e > 0 then ''.'' @ str_int e else [])
          @ '' '' @ [''Good'', ''Outstanding'', ''Excellent'', ''Masterpiece''] ! nat (q - 2) @ ''.png'')"
  by (auto simp: build_url_def build_filename_def Let_def str_int_digit quality_word_nth)

theorem quality_in_filename_and_url_witness:
  "(2::int) \<le> 4 \<and> (4::int) \<le> 5
   \<and> build_url ''T6_ARMOR_CLOTH_SET2@1'' 4
        = ''https://render.albiononline.com/v1/item/T6_ARMOR_CLOTH_SET2@1.png?quality=4''
   \<and> build_url ''T6_ARMOR_CLOTH_SET2@1'' 1
        = ''https://render.albiononline.com/v1/item/T6_ARMOR_CLOTH_SET2@1.png''
   \<and> build_filename ''Cleric Robe'' 6 1 4 = ''Cleric Robe 6.1 Excellent.png''
   \<and> build_filename ''Cleric Robe'' 6 1 1 = ''Cleric Robe 6.1.png''"
proof -
  have s6: "str_int 6 = ''6''" by code_simp
  have s1: "str_int 1 = ''1''" by code_simp
  have d4: "digit_char 4 = CHR ''4''" by code_simp
  have s4: "str_int 4 = ''4''" by code_simp
  have st: "safe_file_stem ''Cleric Robe'' = ''Cleric Robe''" by code_simp
  note t = quality_in_filename_and_url[where idt = "''T6_ARMOR_CLOTH_SET2@1''" and q = 4
      and name = "''Cleric Robe''" and t = 6 and e = 1]
  from t have u4: "build_url ''T6_ARMOR_CLOTH_SET2@1'' 4
        = ''https://render.albiononline.com/v1/item/T6_ARMOR_CLOTH_SET2@1.png?quality=4''"
    by (simp add: BASE_URL_def d4 s4)
  from t have u1: "build_url ''T6_ARMOR_CLOTH_SET2@1'' 1
        = ''https://render.albiononline.com/v1/item/T6_ARMOR_CLOTH_SET2@1.png''"
    by (simp add: BASE_URL_def)
  from t have f4: "build_filename ''Cleric Robe'' 6 1 4 = ''Cleric Robe 6.1 Excellent.png''"
    by (simp add: s6 s1 st)
  from t have f1: "build_filename ''Cleric Robe'' 6 1 1 = ''Cleric Robe 6.1.png''"
    by (simp add: s6 s1 st)
  show ?thesis using u4 u1 f4 f1 by simp
qed

section \<open>The reader of the request list\<close>

lemma parse_row_unfold:
  "parse_row raw =
     (if raw = [] then ([], None)
      else if length raw = 1 \<and> startswith_hash (lstrip (raw ! 0)) then ([], None)
      else if map strip raw = [] \<or> map strip raw ! 0 = [] then ([], None)
      else if snd (tier_field (map strip raw)) \<noteq> - 1
              \<and> \<not> (1 \<le> snd (tier_field (map strip raw)) \<and> snd (tier_field (map strip raw)) \<le> 8)
        then ((fst (tier_field (map strip raw)) @ fst (enchant_field (map strip raw))
                @ fst (quality_field (map strip raw)))
               @ [Warn_invalid_tier (snd (tier_field (map strip raw))) (map strip raw ! 0)], None)
      else if \<not> (0 \<le> snd (enchant_field (map strip raw)) \<and> snd (enchant_field (map strip raw)) \<le> 4)
        then ((fst (tier_field (map strip raw)) @ fst (enchant_field (map strip raw))
                @ fst (quality_field (map strip raw)))
               @ [Warn_invalid_enchant (snd (enchant_field (map strip raw))) (map strip raw ! 0)], None)
      else if \<not> (1 \<le> snd (quality_field (map strip raw)) \<and> snd (quality_field (map strip raw)) \<le> 5)
        then ((fst (tier_field (map strip raw)) @ fst (enchant_field (map strip raw))
                @ fst (quality_field (map strip raw)))
               @ [Warn_invalid_quality (snd (quality_field (map strip raw))) (map strip raw ! 0)], None)
      else (fst (tier_field (map strip raw)) @ fst (enchant_field (map strip raw))
              @ fst (quality_field (map strip raw)),
            Some (map strip raw ! 0, snd (tier_field (map strip raw)),
                  snd (enchant_field (map strip raw)), snd (quality_field (map strip raw)),
                  join '', '' (map strip raw))))"
  unfolding parse_row_def Let_def case_prod_beta tier_field_def enchant_field_def quality_field_def
  by (rule refl)


lemma strip_Nil: "strip [] = []"
  by (simp add: strip_def lstrip_def rstrip_def)

lemma py_int_Nil: "py_int [] = None"
  by (simp add: py_int_def strip_Nil)

lemma py_int_Some_nonempty: "py_int s = Some v \<Longrightarrow> s \<noteq> []"
  using py_int_Nil by auto

lemma tier_field_Some:
  "1 < length raw \<Longrightarrow> py_int (strip (raw ! 1)) = Some t \<Longrightarrow> tier_field (map strip raw) = ([], t)"
  using py_int_Some_nonempty[of "strip (raw ! 1)" t] by (simp add: tier_field_def)

lemma enchant_field_Some:
  "2 < length raw \<Longrightarrow> py_int (strip (raw ! 2)) = Some e \<Longrightarrow> enchant_field (map strip raw) = ([], e)"
  using py_int_Some_nonempty[of "strip (raw ! 2)" e] by (simp add: enchant_field_def)

lemma quality_field_Some:
  "3 < length raw \<Longrightarrow> py_int (strip (raw ! 3)) = Some q \<Longrightarrow> quality_field (map strip raw) = ([], q)"
  using py_int_Some_nonempty[of "strip (raw ! 3)" q] by (simp add: quality_field_def)

lemma parse_row_bad_tier:
  assumes "1 < length raw" "py_int (strip (raw ! 1)) = Some t" "t \<noteq> - 1" "t < 1 \<or> 8 < t"
  shows "snd (parse_row raw) = None"
    and "strip (raw ! 0) \<noteq> [] \<Longrightarrow>
           fst (parse_row raw) \<noteq> [] \<and> is_skip_warning (last (fst (parse_row raw)))"
  using assms tier_field_Some[OF assms(1,2)] by (auto simp: parse_row_unfold)

lemma parse_row_bad_enchant:
  assumes "2 < length raw" "py_int (strip (raw ! 2)) = Some e" "e < 0 \<or> 4 < e"
  shows "snd (parse_row raw) = None"
    and "strip (raw ! 0) \<noteq> [] \<Longrightarrow>
           fst (parse_row raw) \<noteq> [] \<and> is_skip_warning (last (fst (parse_row raw)))"
  using assms enchant_field_Some[OF assms(1,2)] by (auto simp: parse_row_unfold)

lemma parse_row_bad_quality:
  assumes "3 < length raw" "py_int (strip (raw ! 3)) = Some q" "q < 1 \<or> 5 < q"
  shows "snd (parse_row raw) = None"
    and "strip (raw ! 0) \<noteq> [] \<Longrightarrow>
           fst (parse_row raw) \<noteq> [] \<and> is_skip_warning (last (fst (parse_row raw)))"
  using assms quality_field_Some[OF assms(1,2)] by (auto simp: parse_row_unfold)

lemma process_entry_failed_lines:
  "failed_lines (process_entry dct out dl st (name, t, e, q, orig)) = failed_lines st
   \<or> failed_lines (process_entry dct out dl st (name, t, e, q, orig)) = failed_lines st @ [orig]"
  by (auto simp: process_entry_def split: prod.splits option.splits resolution.splits)

lemma failed_lines_from_entries:
  "set (failed_lines (foldl (process_entry dct out dl) st es))
     \<subseteq> set (failed_lines st) \<union> (\<lambda>en. snd (snd (snd (snd en)))) ` set es"
proof (induction es arbitrary: st)
  case Nil
  then show ?case by simp
next
  case (Cons en es)
  obtain name t e q orig where en: "en = (name, t, e, q, orig)" by (cases en)
  have "set (failed_lines (process_entry dct out dl st en)) \<subseteq> set (failed_lines st) \<union> {orig}"
    using process_entry_failed_lines[of dct out dl st name t e q orig] en by auto
  with Cons[of "process_entry dct out dl st en"] en show ?case by auto
qed

lemma set_map_filter: "(y \<in> set (List.map_filter f xs)) = (\<exists>x \<in> set xs. f x = Some y)"
  by (induction xs) (auto simp: List.map_filter_simps split: option.splits)

lemma parse_requests_file_entries:
  "en \<in> set (snd (parse_requests_file path (Some text)))
     \<longleftrightarrow> (\<exists>raw \<in> set (csv_reader text). snd (parse_row raw) = Some en)"
  by (simp add: parse_requests_file_def Let_def set_map_filter)

lemma nth_map_strip_0: "raw \<noteq> [] \<Longrightarrow> map strip raw ! 0 = strip (raw ! 0)"
  by (cases raw) simp_all

lemma read_field_Number:
  "read_field raw i = Number v \<Longrightarrow> i < length raw \<and> py_int (strip (raw ! i)) = Some v"
  by (auto simp: read_field_def split: if_splits option.splits)

lemma tier_field_read:
  "raw \<noteq> [] \<Longrightarrow> tier_field (map strip raw) =
     (field_warning (Warn_bad_tier (strip (raw ! 0))) (read_field raw 1),
      field_value (- 1) (read_field raw 1))"
  by (cases "1 < length raw")
     (auto simp: tier_field_def read_field_def nth_map_strip_0 split: option.splits)

lemma enchant_field_read:
  "raw \<noteq> [] \<Longrightarrow> enchant_field (map strip raw) =
     (field_warning (Warn_bad_enchant (strip (raw ! 0))) (read_field raw 2),
      field_value 0 (read_field raw 2))"
  by (cases "2 < length raw")
     (auto simp: enchant_field_def read_field_def nth_map_strip_0 split: option.splits)

lemma quality_field_read:
  "raw \<noteq> [] \<Longrightarrow> quality_field (map strip raw) =
     (field_warning (Warn_bad_quality (strip (raw ! 0))) (read_field raw 3),
      field_value 1 (read_field raw 3))"
  by (cases "3 < length raw")
     (auto simp: quality_field_def read_field_def nth_map_strip_0 split: option.splits)

lemma field_value_tier_ok:
  "\<forall>t. f = Number t \<longrightarrow> 1 \<le> t \<and> t \<le> 8 \<Longrightarrow>
     field_value (- 1) f = - 1 \<or> (1 \<le> field_value (- 1) f \<and> field_value (- 1) f \<le> 8)"
  by (cases f) simp_all

lemma field_value_enchant_ok:
  "\<forall>e. f = Number e \<longrightarrow> 0 \<le> e \<and> e \<le> 4 \<Longrightarrow> 0 \<le> field_value 0 f \<and> field_value 0 f \<le> 4"
  by (cases f) simp_all

lemma field_value_quality_ok:
  "\<forall>q. f = Number q \<longrightarrow> 1 \<le> q \<and> q \<le> 5 \<Longrightarrow> 1 \<le> field_value 1 f \<and> field_value 1 f \<le> 5"
  by (cases f) simp_all

lemma parse_row_kept:
  assumes r: "is_request_row raw"
    and t: "\<forall>t. read_field raw 1 = Number t \<longrightarrow> 1 \<le> t \<and> t \<le> 8"
    and e: "\<forall>e. read_field raw 2 = Number e \<longrightarrow> 0 \<le> e \<and> e \<le> 4"
    and q: "\<forall>q. read_field raw 3 = Number q \<longrightarrow> 1 \<le> q \<and> q \<le> 5"
  shows "parse_row raw =
           (field_warning (Warn_bad_tier (strip (raw ! 0))) (read_field raw 1)
              @ field_warning (Warn_bad_enchant (strip (raw ! 0))) (read_field raw 2)
              @ field_warning (Warn_bad_quality (strip (raw ! 0))) (read_field raw 3),
            Some (strip (raw ! 0), field_value (- 1) (read_field raw 1),
                  field_value 0 (read_field raw 2), field_value 1 (read_field raw 3),
                  join '', '' (map strip raw)))"
proof -
  from r have n: "raw \<noteq> []" and c: "\<not> (length raw = 1 \<and> startswith_hash (lstrip (raw ! 0)))"
    and s: "strip (raw ! 0) \<noteq> []"
    by (simp_all add: is_request_row_def)
  note tv = field_value_tier_ok[OF t] and ev = field_value_enchant_ok[OF e]
    and qv = field_value_quality_ok[OF q]
  show ?thesis
    unfolding parse_row_unfold tier_field_read[OF n] enchant_field_read[OF n]
      quality_field_read[OF n] nth_map_strip_0[OF n]
    using n c s tv ev qv by auto
qed

lemma parse_row_skipped: "\<not> is_request_row raw \<Longrightarrow> parse_row raw = ([], None)"
proof (cases "raw = []")
  case True
  then show ?thesis by (simp add: parse_row_unfold)
next
  case False
  assume "\<not> is_request_row raw"
  with False show ?thesis
    unfolding parse_row_unfold nth_map_strip_0[OF False]
    by (auto simp: is_request_row_def)
qed

lemma parse_row_dropped:
  assumes "(\<exists>t. read_field raw 1 = Number t \<and> t \<noteq> - 1 \<and> (t < 1 \<or> 8 < t))
     \<or> (\<exists>e. read_field raw 2 = Number e \<and> (e < 0 \<or> 4 < e))
     \<or> (\<exists>q. read_field raw 3 = Number q \<and> (q < 1 \<or> 5 < q))"
  shows "snd (parse_row raw) = None"
    and "is_request_row raw \<Longrightarrow>
           fst (parse_row raw) \<noteq> [] \<and> is_skip_warning (last (fst (parse_row raw)))"
proof -
  from assms consider
      (tier) t where "1 < length raw" "py_int (strip (raw ! 1)) = Some t" "t \<noteq> - 1" "t < 1 \<or> 8 < t"
    | (enchant) e where "2 < length raw" "py_int (strip (raw ! 2)) = Some e" "e < 0 \<or> 4 < e"
    | (quality) q where "3 < length raw" "py_int (strip (raw ! 3)) = Some q" "q < 1 \<or> 5 < q"
    using read_field_Number by blast
  then have "snd (parse_row raw) = None
      \<and> (strip (raw ! 0) \<noteq> [] \<longrightarrow>
           fst (parse_row raw) \<noteq> [] \<and> is_skip_warning (last (fst (parse_row raw))))"
  proof cases
    case tier
    then show ?thesis using parse_row_bad_tier[of raw t] by blast
  next
    case enchant
    then show ?thesis using parse_row_bad_enchant[of raw e] by blast
  next
    case quality
    then show ?thesis using parse_row_bad_quality[of raw q] by blast
  qed
  then show "snd (parse_row raw) = None"
    and "is_request_row raw \<Longrightarrow>
           fst (parse_row raw) \<noteq> [] \<and> is_skip_warning (last (fst (parse_row raw)))"
    by (simp_all add: is_request_row_def)
qed

section \<open>The lines written back\<close>





section \<open>Claims about the request list and the run\<close>

text \<open>
  C5, as the program has it. A line in which the tier, the enchantment or the quality is
  an integer outside its range (for the tier: other than the sentinel \<open>-1\<close>) yields no
  request; when the line has a name and is not a comment, its diagnostics end with a
  "skipping" warning. A field that is present but is not an integer does not drop the
  line: a line with a name, not a comment, in which every field is absent, not an
  integer, or an integer in its range, yields a request, with the sentinel for a tier
  that is absent or not an integer, 0 for such an enchantment and 1 for such a quality,
  and one warning for each field that is not an integer. A line without a name is
  skipped without a diagnostic, whatever its fields. The requests passed on are exactly
  those of the rows that yield one, and every line kept for the rewritten file is the
  line of such a request.
\<close>

theorem out_of_range_field_drops_line:
  "((\<exists>t. read_field raw 1 = Number t \<and> t \<noteq> - 1 \<and> (t < 1 \<or> 8 < t))
     \<or> (\<exists>e. read_field raw 2 = Number e \<and> (e < 0 \<or> 4 < e))
     \<or> (\<exists>q. read_field raw 3 = Number q \<and> (q < 1 \<or> 5 < q))
    \<longrightarrow> snd (parse_row raw) = None
        \<and> (is_request_row raw \<longrightarrow>
             fst (parse_row raw) \<noteq> [] \<and> is_skip_warning (last (fst (parse_row raw)))))
   \<and> (is_request_row raw
        \<and> (\<forall>t. read_field raw 1 = Number t \<longrightarrow> 1 \<le> t \<and> t \<le> 8)
        \<and> (\<forall>e. read_field raw 2 = Number e \<longrightarrow> 0 \<le> e \<and> e \<le> 4)
        \<and> (\<forall>q. read_field raw 3 = Number q \<longrightarrow> 1 \<le> q \<and> q \<le> 5)
       \<longrightarrow> parse_row raw =
             (field_warning (Warn_bad_tier (strip (raw ! 0))) (read_field raw 1)
                @ field_warning (Warn_bad_enchant (strip (raw ! 0))) (read_field raw 2)
                @ field_warning (Warn_bad_quality (strip (raw ! 0))) (read_field raw 3),
              Some (strip (raw ! 0), field_value (- 1) (read_field raw 1),
                    field_value 0 (read_field raw 2), field_value 1 (read_field raw 3),
                    join '', '' (map strip raw))))
   \<and> (\<not> is_request_row raw \<longrightarrow> parse_row raw = ([], None))
   \<and> (en \<in> set (snd (parse_requests_file path (Some body)))
        \<longleftrightarrow> (\<exists>r \<in> set (csv_reader body). snd (parse_row r) = Some en))
   \<and> set (failed_lines (foldl (process_entry dct out dl) st es))
        \<subseteq> set (failed_lines st) \<union> (\<lambda>en. snd (snd (snd (snd en)))) ` set es"
proof (intro conjI impI)
  assume a: "(\<exists>t. read_field raw 1 = Number t \<and> t \<noteq> - 1 \<and> (t < 1 \<or> 8 < t))
     \<or> (\<exists>e. read_field raw 2 = Number e \<and> (e < 0 \<or> 4 < e))
     \<or> (\<exists>q. read_field raw 3 = Number q \<and> (q < 1 \<or> 5 < q))"
  then show "snd (parse_row raw) = None" by (rule parse_row_dropped(1))
  assume "is_request_row raw"
  with a have "fst (parse_row raw) \<noteq> [] \<and> is_skip_warning (last (fst (parse_row raw)))"
    by (rule parse_row_dropped(2))
  then show "fst (parse_row raw) \<noteq> []" and "is_skip_warning (last (fst (parse_row raw)))"
    by simp_all
next
  assume "is_request_row raw
        \<and> (\<forall>t. read_field raw 1 = Number t \<longrightarrow> 1 \<le> t \<and> t \<le> 8)
        \<and> (\<forall>e. read_field raw 2 = Number e \<longrightarrow> 0 \<le> e \<and> e \<le> 4)
        \<and> (\<forall>q. read_field raw 3 = Number q \<longrightarrow> 1 \<le> q \<and> q \<le> 5)"
  then show "parse_row raw =
             (field_warning (Warn_bad_tier (strip (raw ! 0))) (read_field raw 1)
                @ field_warning (Warn_bad_enchant (strip (raw ! 0))) (read_field raw 2)
                @ field_warning (Warn_bad_quality (strip (raw ! 0))) (read_field raw 3),
              Some (strip (raw ! 0), field_value (- 1) (read_field raw 1),
                    field_value 0 (read_field raw 2), field_value 1 (read_field raw 3),
                    join '', '' (map strip raw)))"
    using parse_row_kept[of raw] by blast
next
  assume "\<not> is_request_row raw"
  then show "parse_row raw = ([], None)" by (rule parse_row_skipped)
next
  show "en \<in> set (snd (parse_requests_file path (Some body)))
        \<longleftrightarrow> (\<exists>r \<in> set (csv_reader body). snd (parse_row r) = Some en)"
    by (rule parse_requests_file_entries)
next
  show "set (failed_lines (foldl (process_entry dct out dl) st es))
        \<subseteq> set (failed_lines st) \<union> (\<lambda>en. snd (snd (snd (snd en)))) ` set es"
    by (rule failed_lines_from_entries)
qed

theorem out_of_range_field_drops_line_witness:
  "is_request_row [''Mule'', '' 9''] \<and> read_field [''Mule'', '' 9''] 1 = Number 9
   \<and> (9::int) \<noteq> - 1 \<and> (8::int) < 9
   \<and> snd (parse_row [''Mule'', '' 9'']) = None
   \<and> is_skip_warning (last (fst (parse_row [''Mule'', '' 9''])))
   \<and> is_request_row [''Guardian Helmet'', '' 6'', ''abc'', ''4'']
   \<and> read_field [''Guardian Helmet'', '' 6'', ''abc'', ''4''] 1 = Number 6
   \<and> read_field [''Guardian Helmet'', '' 6'', ''abc'', ''4''] 2 = Malformed ''abc''
   \<and> read_field [''Guardian Helmet'', '' 6'', ''abc'', ''4''] 3 = Number 4
   \<and> parse_row [''Guardian Helmet'', '' 6'', ''abc'', ''4''] =
        ([Warn_bad_enchant ''Guardian Helmet'' ''abc''],
         Some (''Guardian Helmet'', 6, 0, 4, ''Guardian Helmet, 6, abc, 4''))
   \<and> \<not> is_request_row ['''', '' 99'']
   \<and> parse_row ['''', '' 99''] = ([], None)"
proof -
  have r1: "is_request_row [''Mule'', '' 9'']" by code_simp
  have f1: "read_field [''Mule'', '' 9''] 1 = Number 9" by code_simp
  have r2: "is_request_row [''Guardian Helmet'', '' 6'', ''abc'', ''4'']" by code_simp
  have g1: "read_field [''Guardian Helmet'', '' 6'', ''abc'', ''4''] 1 = Number 6" by code_simp
  have g2: "read_field [''Guardian Helmet'', '' 6'', ''abc'', ''4''] 2 = Malformed ''abc''"
    by code_simp
  have g3: "read_field [''Guardian Helmet'', '' 6'', ''abc'', ''4''] 3 = Number 4" by code_simp
  have n: "strip ([''Guardian Helmet'', '' 6'', ''abc'', ''4''] ! 0) = ''Guardian Helmet''"
    by code_simp
  have j: "join '', '' (map strip [''Guardian Helmet'', '' 6'', ''abc'', ''4''])
             = ''Guardian Helmet, 6, abc, 4''"
    by code_simp
  have r3: "\<not> is_request_row ['''', '' 99'']" by code_simp
  note t1 = out_of_range_field_drops_line[where raw = "[''Mule'', '' 9'']"
      and en = "(''Mule'', 5, 0, 1, ''Mule, 5'')"
      and path = "''downloads.txt''" and body = "''Mule, 5''"
      and dct = "parse_embedded_items ITEMS_CSV_excerpt" and out = "''downloads''"
      and dl = fetch_ok and st = start_state and es = "[]"]
  note t2 = out_of_range_field_drops_line[where raw = "[''Guardian Helmet'', '' 6'', ''abc'', ''4'']"
      and en = "(''Mule'', 5, 0, 1, ''Mule, 5'')"
      and path = "''downloads.txt''" and body = "''Mule, 5''"
      and dct = "parse_embedded_items ITEMS_CSV_excerpt" and out = "''downloads''"
      and dl = fetch_ok and st = start_state and es = "[]"]
  note t3 = out_of_range_field_drops_line[where raw = "['''', '' 99'']"
      and en = "(''Mule'', 5, 0, 1, ''Mule, 5'')"
      and path = "''downloads.txt''" and body = "''Mule, 5''"
      and dct = "parse_embedded_items ITEMS_CSV_excerpt" and out = "''downloads''"
      and dl = fetch_ok and st = start_state and es = "[]"]
  from t1 r1 f1 have d: "snd (parse_row [''Mule'', '' 9'']) = None
      \<and> is_skip_warning (last (fst (parse_row [''Mule'', '' 9''])))"
    by simp
  from t2 r2 have k: "parse_row [''Guardian Helmet'', '' 6'', ''abc'', ''4''] =
        ([Warn_bad_enchant ''Guardian Helmet'' ''abc''],
         Some (''Guardian Helmet'', 6, 0, 4, ''Guardian Helmet, 6, abc, 4''))"
    unfolding g1 g2 g3 n j by simp
  from t3 r3 have s: "parse_row ['''', '' 99''] = ([], None)" by blast
  show ?thesis using r1 f1 d r2 g1 g2 g3 k r3 s by simp
qed

text \<open>
  C5 as it is stated fails in two ways. A tier that is not an integer does not drop the
  line: it is passed to the resolver with the sentinel tier, fails there for lack of a
  tier, and is written back. And a line without a name whose tier is out of range is
  dropped without any diagnostic.
\<close>

theorem malformed_field_line_is_kept:
  "py_int ''abc'' = None
   \<and> csv_reader (''Guardian Helmet, abc'' @ [newline]) = [[''Guardian Helmet'', '' abc'']]
   \<and> parse_row [''Guardian Helmet'', '' abc''] =
       ([Warn_bad_tier ''Guardian Helmet'' ''abc''],
        Some (''Guardian Helmet'', - 1, 0, 1, ''Guardian Helmet, abc''))
   \<and> main ITEMS_CSV_excerpt ''downloads.txt'' ''downloads'' fetch_ok True
        (Some (''Guardian Helmet, abc'' @ [newline])) [] =
      \<lparr> exit_status = 0,
        console = [Warn_bad_tier ''Guardian Helmet'' ''abc'', Fail_tier_required ''Guardian Helmet'',
                   Info_kept 1 ''downloads.txt''],
        file_after = Some (''Guardian Helmet, abc'' @ [newline]),
        world_after = [] \<rparr>
   \<and> py_int '' 99'' = Some 99
   \<and> csv_reader ('', 99'' @ [newline]) = [['''', '' 99'']]
   \<and> parse_row ['''', '' 99''] = ([], None)"
  by code_simp

text \<open>
  C6, as the program has it. An empty mapping ends the run with exit status 1 before the
  request list is read: nothing is downloaded and the file is left as it is. With a
  mapping that is not empty the run always ends with exit status 0, whatever the
  requests do; when the request list is missing, the run prints an error, downloads
  nothing and ends with exit status 0 as well.
\<close>

theorem configuration_errors:
  "(parse_embedded_items items = [] \<longrightarrow>
      main items path out dl cw content w =
        \<lparr> exit_status = 1, console = [Error_mapping_empty], file_after = content,
          world_after = w \<rparr>)
   \<and> (parse_embedded_items items \<noteq> [] \<longrightarrow>
        exit_status (main items path out dl cw content w) = 0
      \<and> main items path out dl cw None w =
          \<lparr> exit_status = 0, console = [Error_input_not_found path, Info_no_entries],
            file_after = None, world_after = w \<rparr>)"
  by (simp add: main_empty_mapping main_exit_status main_missing_file)

theorem configuration_errors_witness:
  "parse_embedded_items ''# no items'' = []
   \<and> main ''# no items'' ''downloads.txt'' ''downloads'' fetch_down True
        (Some (''Mule, 5'' @ [newline])) [] =
      \<lparr> exit_status = 1, console = [Error_mapping_empty],
        file_after = Some (''Mule, 5'' @ [newline]), world_after = [] \<rparr>
   \<and> parse_embedded_items ITEMS_CSV_excerpt \<noteq> []
   \<and> exit_status (main ITEMS_CSV_excerpt ''downloads.txt'' ''downloads'' fetch_down True
        (Some (''Mule, 5'' @ [newline] @ ''Not A Real Item, 3'' @ [newline])) []) = 0
   \<and> file_after (main ITEMS_CSV_excerpt ''downloads.txt'' ''downloads'' fetch_down True
        (Some (''Mule, 5'' @ [newline] @ ''Not A Real Item, 3'' @ [newline])) [])
      = Some (''Mule, 5'' @ [newline] @ ''Not A Real Item, 3'' @ [newline])"
proof -
  have e: "parse_embedded_items ''# no items'' = []" by code_simp
  have n: "parse_embedded_items ITEMS_CSV_excerpt \<noteq> []" by code_simp
  have f: "file_after (main ITEMS_CSV_excerpt ''downloads.txt'' ''downloads'' fetch_down True
        (Some (''Mule, 5'' @ [newline] @ ''Not A Real Item, 3'' @ [newline])) [])
      = Some (''Mule, 5'' @ [newline] @ ''Not A Real Item, 3'' @ [newline])" by code_simp
  note t1 = configuration_errors[where items = "''# no items''" and path = "''downloads.txt''"
      and out = "''downloads''" and dl = fetch_down and cw = True
      and content = "Some (''Mule, 5'' @ [newline])" and w = "[]"]
  note t2 = configuration_errors[where items = ITEMS_CSV_excerpt and path = "''downloads.txt''"
      and out = "''downloads''" and dl = fetch_down and cw = True
      and content = "Some (''Mule, 5'' @ [newline] @ ''Not A Real Item, 3'' @ [newline])"
      and w = "[]"]
  from t1 e have a: "main ''# no items'' ''downloads.txt'' ''downloads'' fetch_down True
        (Some (''Mule, 5'' @ [newline])) [] =
      \<lparr> exit_status = 1, console = [Error_mapping_empty],
        file_after = Some (''Mule, 5'' @ [newline]), world_after = [] \<rparr>"
    by blast
  from t2 n have b: "exit_status (main ITEMS_CSV_excerpt ''downloads.txt'' ''downloads'' fetch_down
        True (Some (''Mule, 5'' @ [newline] @ ''Not A Real Item, 3'' @ [newline])) []) = 0"
    by blast
  show ?thesis by (intro conjI) (rule e a n b f)+
qed

text \<open>
  C6 as it is stated fails when the request list is missing: the run ends with exit
  status 0.
\<close>

theorem missing_input_file_exits_normally:
  "parse_embedded_items ITEMS_CSV_excerpt \<noteq> []
   \<and> main ITEMS_CSV_excerpt ''downloads.txt'' ''downloads'' fetch_ok True None [] =
      \<lparr> exit_status = 0, console = [Error_input_not_found ''downloads.txt'', Info_no_entries],
        file_after = None, world_after = [] \<rparr>"
  by code_simp




end
